theory Spec2Isabelle
  imports Complex_Main "HOL-Library.AList"
begin

section \<open>PyTorrent: the torrent session manager of \<^verbatim>\<open>torrent_engine.py\<close>\<close>

text \<open>
  The theory embeds the class \<^verbatim>\<open>TorrentEngine\<close>. The libtorrent session, its
  handles and the two state files are not part of the class: the library is a record of
  functions over an abstract session state, and each state file is a value with the
  permissions that decide whether opening or removing it raises.

  Conventions.
  \<^item> A Python \<^verbatim>\<open>dict\<close> is an association list in insertion order;
    \<^verbatim>\<open>d[k] = v\<close> is \<open>AList.update\<close>, \<^verbatim>\<open>d.pop(k, None)\<close> is
    \<open>map_of\<close> followed by \<open>AList.delete\<close>.
  \<^item> A finite Python \<^verbatim>\<open>float\<close> is the \<open>real\<close> it denotes. The status fields are
    finite. The one float operation of the class, the division of line 185, rounds to
    binary64 and can leave the finite floats; it is modelled with its rounding and its
    \<^verbatim>\<open>OverflowError\<close>.
  \<^item> A Python \<^verbatim>\<open>str\<close> is a \<open>string\<close>.
  \<^item> An operation that can raise returns \<open>exn + 'a\<close> next to the state it leaves
    behind; an operation whose every raising call sits under \<^verbatim>\<open>except Exception\<close>
    returns the state alone.
\<close>

subsection \<open>Exceptions and JSON values\<close>

datatype exn =
    RuntimeError | AttributeError | TypeError | OverflowError | ZeroDivisionError
  | OtherException

text \<open>What \<^verbatim>\<open>json.load\<close> returns: \<open>JNull\<close> is Python's \<^verbatim>\<open>None\<close>, \<open>JObj\<close> a
  \<^verbatim>\<open>dict\<close> with its items in order.\<close>

datatype json =
    JNull
  | JBool bool
  | JNum real
  | JStr string
  | JArr "json list"
  | JObj "(string \<times> json) list"

text \<open>Python truthiness, as used by \<^verbatim>\<open>not data\<close>, \<^verbatim>\<open>not kind\<close>, \<^verbatim>\<open>not source\<close>.\<close>

fun truthy :: "json \<Rightarrow> bool" where
  "truthy JNull = False"
| "truthy (JBool b) = b"
| "truthy (JNum x) = (x \<noteq> 0)"
| "truthy (JStr s) = (s \<noteq> [])"
| "truthy (JArr xs) = (xs \<noteq> [])"
| "truthy (JObj kvs) = (kvs \<noteq> [])"

text \<open>\<^verbatim>\<open>x.get(key, default)\<close>: only a \<^verbatim>\<open>dict\<close> has the method.\<close>

fun py_get :: "json \<Rightarrow> string \<Rightarrow> json \<Rightarrow> exn + json" where
  "py_get (JObj kvs) key dflt = Inr (case map_of kvs key of None \<Rightarrow> dflt | Some v \<Rightarrow> v)"
| "py_get _ key dflt = Inl AttributeError"

text \<open>\<^verbatim>\<open>for item in x\<close>: a list yields its elements, a dict its keys, a string its
  characters; anything else is not iterable.\<close>

fun py_iter :: "json \<Rightarrow> exn + json list" where
  "py_iter (JArr xs) = Inr xs"
| "py_iter (JObj kvs) = Inr (map (\<lambda>kv. JStr (fst kv)) kvs)"
| "py_iter (JStr s) = Inr (map (\<lambda>c. JStr [c]) s)"
| "py_iter _ = Inl TypeError"

subsection \<open>The libtorrent boundary\<close>

type_synonym handle = nat

record torrent_info =
  ti_name :: string
  ti_files :: "(string \<times> int) list"

text \<open>The fields of \<^verbatim>\<open>handle.status()\<close> that \<^verbatim>\<open>get_status_list\<close> reads. The
  progress and the two rates are the finite floats that \<^verbatim>\<open>float(...)\<close> makes of them,
  as the reals they denote.\<close>

record torrent_status =
  s_state :: int
  s_total_done :: int
  s_total_wanted :: int
  s_progress :: real
  s_download_rate :: real
  s_upload_rate :: real
  s_name :: string
  s_paused :: bool
  s_is_seeding :: bool
  s_num_peers :: int

text \<open>The dictionary handed to \<^verbatim>\<open>session.add_torrent\<close>: either \<^verbatim>\<open>ti\<close>,
  \<^verbatim>\<open>save_path\<close> and optional \<^verbatim>\<open>file_priorities\<close>, or \<^verbatim>\<open>url\<close> and
  \<^verbatim>\<open>save_path\<close>.\<close>

datatype add_params =
    TiParams torrent_info string "int list option"
  | UrlParams json string

text \<open>
  The library over a session state \<open>'e\<close>. A call that changes the session returns the
  new session also when it raises. \<open>lt_get_torrent_info\<close> may return \<^verbatim>\<open>None\<close>
  (\<open>Inr None\<close>). \<open>lt_id\<close> is \<^verbatim>\<open>str(id(handle))\<close>; \<open>lt_has_options_t\<close> is
  \<^verbatim>\<open>hasattr(lt, "options_t")\<close>; the flag of \<open>lt_remove_torrent\<close> says whether
  \<^verbatim>\<open>lt.options_t.delete_files\<close> is passed.
\<close>

record 'e libtorrent =
  lt_torrent_info :: "json \<Rightarrow> exn + torrent_info"
  lt_add_torrent :: "'e \<Rightarrow> add_params \<Rightarrow> (exn + handle) \<times> 'e"
  lt_info_hash :: "'e \<Rightarrow> handle \<Rightarrow> exn + string"
  lt_id :: "handle \<Rightarrow> string"
  lt_status :: "'e \<Rightarrow> handle \<Rightarrow> exn + torrent_status"
  lt_get_torrent_info :: "'e \<Rightarrow> handle \<Rightarrow> exn + torrent_info option"
  lt_file_priorities :: "'e \<Rightarrow> handle \<Rightarrow> exn + int list"
  lt_pause :: "'e \<Rightarrow> handle \<Rightarrow> (exn + unit) \<times> 'e"
  lt_resume :: "'e \<Rightarrow> handle \<Rightarrow> (exn + unit) \<times> 'e"
  lt_remove_torrent :: "'e \<Rightarrow> handle \<Rightarrow> bool \<Rightarrow> (exn + unit) \<times> 'e"
  lt_has_options_t :: bool

subsection \<open>State files\<close>

text \<open>A file holds text that \<^verbatim>\<open>json.load\<close> parses to a value, or text it rejects.\<close>

datatype content = Json json | Garbage

text \<open>\<open>content = None\<close>: the path does not exist. The three flags say whether
  \<^verbatim>\<open>open(path, "r")\<close>, \<^verbatim>\<open>open(path, "w")\<close> and \<^verbatim>\<open>os.remove(path)\<close> succeed.\<close>

record pyfile =
  content :: "content option"
  readable :: bool
  writable :: bool
  removable :: bool

definition exists_file :: "pyfile \<Rightarrow> bool" where
  "exists_file f = (content f \<noteq> None)"

text \<open>\<^verbatim>\<open>with open(path, "r") as f: data = json.load(f)\<close>\<close>

definition read_json :: "pyfile \<Rightarrow> exn + json" where
  "read_json f =
     (if \<not> readable f then Inl OtherException
      else case content f of
             Some (Json j) \<Rightarrow> Inr j
           | _ \<Rightarrow> Inl OtherException)"

text \<open>\<^verbatim>\<open>with open(path, "w") as f: json.dump(data, f)\<close>\<close>

definition write_json :: "pyfile \<Rightarrow> json \<Rightarrow> (exn + unit) \<times> pyfile" where
  "write_json f data =
     (if writable f then (Inr (), f\<lparr>content := Some (Json data)\<rparr>)
      else (Inl OtherException, f))"

text \<open>\<^verbatim>\<open>os.remove(path)\<close>\<close>

definition os_remove :: "pyfile \<Rightarrow> (exn + unit) \<times> pyfile" where
  "os_remove f =
     (if removable f \<and> exists_file f then (Inr (), f\<lparr>content := None\<rparr>)
      else (Inl OtherException, f))"

subsection \<open>The manager's state\<close>

record descriptor =
  d_kind :: string
  d_source :: json

text \<open>The fields of a \<^verbatim>\<open>TorrentEngine\<close> and the files at \<^verbatim>\<open>_state_path\<close> and
  \<^verbatim>\<open>_legacy_state_path\<close>.\<close>

record 'e torrent_engine =
  download_path :: string
  session :: 'e
  torrents :: "(string \<times> handle) list"
  meta :: "(string \<times> descriptor) list"
  state_file :: pyfile
  legacy_state_file :: pyfile

subsection \<open>\<^verbatim>\<open>_save_state\<close>\<close>

definition descriptor_json :: "string \<times> descriptor \<Rightarrow> json" where
  "descriptor_json p =
     JObj [(''id'', JStr (fst p)), (''kind'', JStr (d_kind (snd p))), (''source'', d_source (snd p))]"

definition state_json :: "(string \<times> descriptor) list \<Rightarrow> json" where
  "state_json m = JObj [(''torrents'', JArr (map descriptor_json m))]"

definition save_state :: "'e torrent_engine \<Rightarrow> 'e torrent_engine" where
  "save_state st =
     (case write_json (state_file st) (state_json (meta st)) of
        (_, f) \<Rightarrow> st\<lparr>state_file := f\<rparr>)"

subsection \<open>\<^verbatim>\<open>get_status_list\<close>: one entry\<close>

record snapshot =
  r_id :: string
  r_name :: string
  r_progress :: real
  r_download_rate :: real
  r_upload_rate :: real
  r_state :: string
  r_total_size :: int
  r_downloaded :: int
  r_num_peers :: int
  r_eta :: int
  r_is_paused :: bool
  r_is_seeding :: bool

definition state_names :: "string list" where
  "state_names =
     [''Queued'', ''Checking'', ''Downloading metadata'', ''Downloading'',
      ''Finished'', ''Seeding'', ''Allocating'', ''Checking fastresume'']"

definition state_of :: "torrent_status \<Rightarrow> string" where
  "state_of s =
     (if 0 \<le> s_state s \<and> s_state s < int (length state_names)
      then state_names ! nat (s_state s)
      else ''Unknown'')"

text \<open>\<^verbatim>\<open>for idx in range(files.num_files()): if priorities[idx] > 0: size_sum += files.file_size(idx)\<close>\<close>

fun size_sum_loop :: "int list \<Rightarrow> (string \<times> int) list \<Rightarrow> nat list \<Rightarrow> int \<Rightarrow> int" where
  "size_sum_loop priorities files [] sz_sum = sz_sum"
| "size_sum_loop priorities files (idx # idxs) sz_sum =
     size_sum_loop priorities files idxs
       (if priorities ! idx > 0 then sz_sum + snd (files ! idx) else sz_sum)"

text \<open>Lines 163 to 179. The outer \<^verbatim>\<open>try\<close> leaves \<^verbatim>\<open>total_size\<close> at
  \<^verbatim>\<open>total_wanted\<close> when \<^verbatim>\<open>get_torrent_info\<close> raises or returns \<^verbatim>\<open>None\<close>; the inner
  one turns a raising \<^verbatim>\<open>file_priorities\<close> into the empty list.\<close>

definition total_size_of :: "'e libtorrent \<Rightarrow> 'e \<Rightarrow> handle \<Rightarrow> torrent_status \<Rightarrow> int" where
  "total_size_of lt e h s =
     (let total_size = s_total_wanted s in
      case lt_get_torrent_info lt e h of
        Inl _ \<Rightarrow> total_size
      | Inr None \<Rightarrow> total_size
      | Inr (Some info_obj) \<Rightarrow>
          (let files = ti_files info_obj;
               priorities = (case lt_file_priorities lt e h of Inl _ \<Rightarrow> [] | Inr ps \<Rightarrow> ps)
           in if priorities \<noteq> [] \<and> length priorities = length files
              then (let sz_sum = size_sum_loop priorities files [0..<length files] 0
                    in if sz_sum > 0 then sz_sum else total_size)
              else total_size))"

subsection \<open>Float arithmetic: \<^verbatim>\<open>int(remaining / download_rate)\<close>\<close>

text \<open>Rounding to the nearest integer, ties to the even one.\<close>

definition round_half_even :: "real \<Rightarrow> int" where
  "round_half_even y =
     (let f = \<lfloor>y\<rfloor>; d = y - of_int f
      in if d < 1 / 2 then f
         else if d > 1 / 2 then f + 1
         else if even f then f else f + 1)"

definition pow2 :: "int \<Rightarrow> real" where
  "pow2 k = (if k \<ge> 0 then 2 ^ nat k else 1 / 2 ^ nat (- k))"

text \<open>
  The binary64 value nearest to a real, ties to even: 53 significant bits, the exponent
  of the leading bit not below \<open>-1022\<close> (below it the spacing stays \<open>pow2 (- 1074)\<close>),
  and \<open>None\<close>, the infinity, when the rounded magnitude reaches \<open>pow2 1024\<close>.
\<close>

definition round64 :: "real \<Rightarrow> real option" where
  "round64 x =
     (if x = 0 then Some 0
      else let ex = max \<lfloor>log 2 \<bar>x\<bar>\<rfloor> (- 1022);
               ulp = pow2 (ex - 52);
               r = of_int (round_half_even (\<bar>x\<bar> / ulp)) * ulp
           in if r \<ge> pow2 1024 then None else Some (sgn x * r))"

text \<open>\<^verbatim>\<open>n / x\<close> for an \<^verbatim>\<open>int\<close> \<open>n\<close> and a finite \<^verbatim>\<open>float\<close> \<open>x\<close>: \<open>n\<close> is converted
  to a float first (\<^verbatim>\<open>OverflowError\<close> when it is too large), then divided; the quotient
  is a finite float or the infinity.\<close>

definition int_truediv :: "int \<Rightarrow> real \<Rightarrow> exn + real option" where
  "int_truediv n x =
     (case round64 (of_int n) of
        None \<Rightarrow> Inl OverflowError
      | Some a \<Rightarrow> if x = 0 then Inl ZeroDivisionError else Inr (round64 (a / x)))"

text \<open>\<^verbatim>\<open>int(q)\<close> on a float: \<^verbatim>\<open>OverflowError\<close> on the infinity, truncation towards
  zero otherwise.\<close>

definition py_int :: "real option \<Rightarrow> exn + int" where
  "py_int q =
     (case q of
        None \<Rightarrow> Inl OverflowError
      | Some x \<Rightarrow> Inr (if x \<ge> 0 then \<lfloor>x\<rfloor> else \<lceil>x\<rceil>))"

text \<open>Lines 183 to 187. Line 185 is under no \<^verbatim>\<open>try\<close>.\<close>

definition eta_sec_of :: "int \<Rightarrow> int \<Rightarrow> real \<Rightarrow> exn + int" where
  "eta_sec_of total_size downloaded download_rate =
     (let remaining = max 0 (total_size - downloaded)
      in if download_rate > 0 \<and> remaining > 0
         then (case int_truediv remaining download_rate of
                 Inl ex \<Rightarrow> Inl ex
               | Inr q \<Rightarrow> py_int q)
         else Inr (- 1))"

text \<open>Lines 188 to 194: the name, with the torrent info as fallback.\<close>

definition name_of :: "'e libtorrent \<Rightarrow> 'e \<Rightarrow> handle \<Rightarrow> torrent_status \<Rightarrow> string" where
  "name_of lt e h s =
     (if s_name s \<noteq> [] then s_name s
      else case lt_get_torrent_info lt e h of
             Inr (Some info) \<Rightarrow> ti_name info
           | _ \<Rightarrow> [])"

text \<open>Lines 197 to 204.\<close>

definition display_state_of :: "string \<Rightarrow> bool \<Rightarrow> bool \<Rightarrow> real \<Rightarrow> real \<Rightarrow> string" where
  "display_state_of state is_paused is_seeding progress download_rate =
     (let display_state = state
      in if is_paused then ''Paused''
         else if is_seeding then ''Seeding''
         else if 0 < progress \<and> progress < 1 \<and> download_rate < 50 * 1024 then ''Resuming''
         else display_state)"

text \<open>The body of the loop for a handle whose \<^verbatim>\<open>status()\<close> returned \<open>s\<close> and whose
  lines 183 to 187 left \<open>eta_sec\<close>.\<close>

definition status_entry ::
  "'e libtorrent \<Rightarrow> 'e \<Rightarrow> string \<Rightarrow> handle \<Rightarrow> torrent_status \<Rightarrow> int \<Rightarrow> snapshot" where
  "status_entry lt e tid h s eta_sec =
     (let state = state_of s;
          downloaded = s_total_done s;
          total_size = total_size_of lt e h s;
          progress = s_progress s;
          download_rate = s_download_rate s;
          upload_rate = s_upload_rate s;
          name = name_of lt e h s;
          is_paused = s_paused s;
          is_seeding = s_is_seeding s;
          display_state = display_state_of state is_paused is_seeding progress download_rate;
          num_peers = s_num_peers s
      in \<lparr>r_id = tid,
          r_name = (if name \<noteq> [] then name else ''(metadata...)''),
          r_progress = progress,
          r_download_rate = download_rate,
          r_upload_rate = upload_rate,
          r_state = display_state,
          r_total_size = total_size,
          r_downloaded = downloaded,
          r_num_peers = num_peers,
          r_eta = eta_sec,
          r_is_paused = is_paused,
          r_is_seeding = is_seeding\<rparr>)"

subsection \<open>\<^verbatim>\<open>get_status_list\<close>\<close>

text \<open>The eta of a handle whose \<^verbatim>\<open>status()\<close> returned \<open>s\<close>, or the exception of
  line 185.\<close>

definition eta_of :: "'e libtorrent \<Rightarrow> 'e \<Rightarrow> handle \<Rightarrow> torrent_status \<Rightarrow> exn + int" where
  "eta_of lt e h s = eta_sec_of (total_size_of lt e h s) (s_total_done s) (s_download_rate s)"

text \<open>The first loop, with \<^verbatim>\<open>result\<close> and \<^verbatim>\<open>to_remove\<close> as accumulators. Only
  \<^verbatim>\<open>RuntimeError\<close> from \<^verbatim>\<open>handle.status()\<close> is caught; any other exception, and the
  exception of line 185, leave the method before anything is removed.\<close>

fun status_loop ::
  "'e libtorrent \<Rightarrow> 'e \<Rightarrow> (string \<times> handle) list \<Rightarrow> snapshot list \<Rightarrow> string list
     \<Rightarrow> exn + (snapshot list \<times> string list)" where
  "status_loop lt e [] result to_remove = Inr (result, to_remove)"
| "status_loop lt e ((tid, h) # items) result to_remove =
     (case lt_status lt e h of
        Inl ex \<Rightarrow>
          (if ex = RuntimeError then status_loop lt e items result (to_remove @ [tid])
           else Inl ex)
      | Inr s \<Rightarrow>
          (case eta_of lt e h s of
             Inl ex \<Rightarrow> Inl ex
           | Inr eta_sec \<Rightarrow>
               status_loop lt e items (result @ [status_entry lt e tid h s eta_sec]) to_remove))"

definition get_status_list ::
  "'e libtorrent \<Rightarrow> 'e torrent_engine \<Rightarrow> (exn + snapshot list) \<times> 'e torrent_engine" where
  "get_status_list lt st =
     (case status_loop lt (session st) (torrents st) [] [] of
        Inl ex \<Rightarrow> (Inl ex, st)
      | Inr (result, to_remove) \<Rightarrow>
          (Inr result, st\<lparr>torrents := fold AList.delete to_remove (torrents st)\<rparr>))"

subsection \<open>Adding torrents\<close>

definition get_torrent_id :: "'e libtorrent \<Rightarrow> 'e \<Rightarrow> handle \<Rightarrow> string" where
  "get_torrent_id lt e h = (case lt_info_hash lt e h of Inr info_hash \<Rightarrow> info_hash | Inl _ \<Rightarrow> lt_id lt h)"

text \<open>Both maps are written under the same \<open>tid\<close>, then the state is saved. An exception
  of \<^verbatim>\<open>lt.torrent_info\<close> or \<^verbatim>\<open>add_torrent\<close> leaves before either map is touched.\<close>

definition record_torrent ::
  "'e torrent_engine \<Rightarrow> string \<Rightarrow> handle \<Rightarrow> descriptor \<Rightarrow> 'e torrent_engine" where
  "record_torrent st tid h d =
     save_state (st\<lparr>torrents := AList.update tid h (torrents st),
                    meta := AList.update tid d (meta st)\<rparr>)"

definition add_torrent_file ::
  "'e libtorrent \<Rightarrow> 'e torrent_engine \<Rightarrow> json \<Rightarrow> int list option
     \<Rightarrow> (exn + string) \<times> 'e torrent_engine" where
  "add_torrent_file lt st torrent_path file_priorities =
     (case lt_torrent_info lt torrent_path of
        Inl ex \<Rightarrow> (Inl ex, st)
      | Inr info \<Rightarrow>
          (case lt_add_torrent lt (session st) (TiParams info (download_path st) file_priorities) of
             (Inl ex, e') \<Rightarrow> (Inl ex, st\<lparr>session := e'\<rparr>)
           | (Inr h, e') \<Rightarrow>
               (let tid = get_torrent_id lt e' h
                in (Inr tid,
                    record_torrent (st\<lparr>session := e'\<rparr>) tid h
                      \<lparr>d_kind = ''file'', d_source = torrent_path\<rparr>))))"

definition add_magnet ::
  "'e libtorrent \<Rightarrow> 'e torrent_engine \<Rightarrow> json \<Rightarrow> (exn + string) \<times> 'e torrent_engine" where
  "add_magnet lt st magnet_uri =
     (case lt_add_torrent lt (session st) (UrlParams magnet_uri (download_path st)) of
        (Inl ex, e') \<Rightarrow> (Inl ex, st\<lparr>session := e'\<rparr>)
      | (Inr h, e') \<Rightarrow>
          (let tid = get_torrent_id lt e' h
           in (Inr tid,
               record_torrent (st\<lparr>session := e'\<rparr>) tid h
                 \<lparr>d_kind = ''magnet'', d_source = magnet_uri\<rparr>)))"

subsection \<open>\<^verbatim>\<open>pause\<close>, \<^verbatim>\<open>resume\<close>, \<^verbatim>\<open>remove\<close>, \<^verbatim>\<open>close\<close>\<close>

definition pause :: "'e libtorrent \<Rightarrow> 'e torrent_engine \<Rightarrow> string \<Rightarrow> 'e torrent_engine" where
  "pause lt st torrent_id =
     save_state
       (case map_of (torrents st) torrent_id of
          None \<Rightarrow> st
        | Some h \<Rightarrow> st\<lparr>session := snd (lt_pause lt (session st) h)\<rparr>)"

definition resume :: "'e libtorrent \<Rightarrow> 'e torrent_engine \<Rightarrow> string \<Rightarrow> 'e torrent_engine" where
  "resume lt st torrent_id =
     (case map_of (torrents st) torrent_id of
        None \<Rightarrow> st
      | Some h \<Rightarrow> st\<lparr>session := snd (lt_resume lt (session st) h)\<rparr>)"

text \<open>Lines 248 to 257: the first \<^verbatim>\<open>remove_torrent\<close> call and, when it raises, the
  retry without the flag, whose own exception is dropped.\<close>

definition remove_from_session :: "'e libtorrent \<Rightarrow> 'e \<Rightarrow> handle \<Rightarrow> bool \<Rightarrow> 'e" where
  "remove_from_session lt e h delete_files =
     (case lt_remove_torrent lt e h (delete_files \<and> lt_has_options_t lt) of
        (Inr _, e') \<Rightarrow> e'
      | (Inl _, e') \<Rightarrow> snd (lt_remove_torrent lt e' h False))"

definition remove ::
  "'e libtorrent \<Rightarrow> 'e torrent_engine \<Rightarrow> string \<Rightarrow> bool \<Rightarrow> 'e torrent_engine" where
  "remove lt st torrent_id delete_files =
     (let handle = map_of (torrents st) torrent_id;
          st1 = st\<lparr>torrents := AList.delete torrent_id (torrents st),
                   meta := AList.delete torrent_id (meta st)\<rparr>
      in case handle of
           None \<Rightarrow> st1
         | Some h \<Rightarrow> st1\<lparr>session := remove_from_session lt (session st1) h delete_files\<rparr>)"

fun pause_all :: "'e libtorrent \<Rightarrow> 'e \<Rightarrow> handle list \<Rightarrow> 'e" where
  "pause_all lt e [] = e"
| "pause_all lt e (h # hs) = pause_all lt (snd (lt_pause lt e h)) hs"

definition close :: "'e libtorrent \<Rightarrow> 'e torrent_engine \<Rightarrow> 'e torrent_engine" where
  "close lt st =
     save_state
       (st\<lparr>session := pause_all lt (session st) (map snd (torrents st)), torrents := []\<rparr>)"

subsection \<open>\<^verbatim>\<open>_load_state\<close> and the constructor\<close>

text \<open>Lines 47 to 67: the value of \<^verbatim>\<open>data\<close> and the files afterwards. A failed write of
  the current file leaves the \<^verbatim>\<open>try\<close> before \<^verbatim>\<open>os.remove\<close> and resets
  \<^verbatim>\<open>data\<close>.\<close>

definition read_state :: "'e torrent_engine \<Rightarrow> json \<times> 'e torrent_engine" where
  "read_state st =
     (let data = (if exists_file (state_file st)
                  then (case read_json (state_file st) of Inl _ \<Rightarrow> JNull | Inr d \<Rightarrow> d)
                  else JNull)
      in if data = JNull \<and> exists_file (legacy_state_file st)
         then (case read_json (legacy_state_file st) of
                 Inl _ \<Rightarrow> (JNull, st)
               | Inr d \<Rightarrow>
                   (case write_json (state_file st) d of
                      (Inl _, f) \<Rightarrow> (JNull, st\<lparr>state_file := f\<rparr>)
                    | (Inr _, f) \<Rightarrow>
                        (d, st\<lparr>state_file := f,
                               legacy_state_file := snd (os_remove (legacy_state_file st))\<rparr>)))
         else (data, st))"

text \<open>Lines 73 to 84. The two \<^verbatim>\<open>item.get\<close> calls are outside the \<^verbatim>\<open>try\<close>.\<close>

fun load_items ::
  "'e libtorrent \<Rightarrow> 'e torrent_engine \<Rightarrow> json list \<Rightarrow> (exn + unit) \<times> 'e torrent_engine" where
  "load_items lt st [] = (Inr (), st)"
| "load_items lt st (item # items) =
     (case py_get item ''kind'' JNull of
        Inl ex \<Rightarrow> (Inl ex, st)
      | Inr kind \<Rightarrow>
          (case py_get item ''source'' JNull of
             Inl ex \<Rightarrow> (Inl ex, st)
           | Inr source \<Rightarrow>
               if \<not> truthy kind \<or> \<not> truthy source then load_items lt st items
               else if kind = JStr ''file''
                 then load_items lt (snd (add_torrent_file lt st source None)) items
               else if kind = JStr ''magnet''
                 then load_items lt (snd (add_magnet lt st source)) items
               else load_items lt st items))"

definition load_state ::
  "'e libtorrent \<Rightarrow> 'e torrent_engine \<Rightarrow> (exn + unit) \<times> 'e torrent_engine" where
  "load_state lt st =
     (case read_state st of
        (data, st1) \<Rightarrow>
          if \<not> truthy data then (Inr (), st1)
          else (case py_get data ''torrents'' (JArr []) of
                  Inl ex \<Rightarrow> (Inl ex, st1)
                | Inr torrents' \<Rightarrow>
                    (case py_iter torrents' of
                       Inl ex \<Rightarrow> (Inl ex, st1)
                     | Inr items \<Rightarrow> load_items lt st1 items)))"

text \<open>\<^verbatim>\<open>__init__\<close> from line 21 on: empty maps, then \<^verbatim>\<open>_load_state\<close>. \<open>e\<close> is the
  session after \<^verbatim>\<open>listen_on\<close> and the DHT calls.\<close>

definition fresh :: "string \<Rightarrow> 'e \<Rightarrow> pyfile \<Rightarrow> pyfile \<Rightarrow> 'e torrent_engine" where
  "fresh path e sf lf =
     \<lparr>download_path = path, session = e, torrents = [], meta = [],
      state_file = sf, legacy_state_file = lf\<rparr>"

definition init_engine ::
  "'e libtorrent \<Rightarrow> string \<Rightarrow> 'e \<Rightarrow> pyfile \<Rightarrow> pyfile \<Rightarrow> (exn + unit) \<times> 'e torrent_engine" where
  "init_engine lt path e sf lf = load_state lt (fresh path e sf lf)"

subsection \<open>Notions used in the statements\<close>

text \<open>The keys of a dictionary.\<close>

definition keys :: "(string \<times> 'v) list \<Rightarrow> string set" where
  "keys d = fst ` set d"

text \<open>The engine reports the handle invalid: \<^verbatim>\<open>handle.status()\<close> raises
  \<^verbatim>\<open>RuntimeError\<close>.\<close>

definition invalidated :: "'e libtorrent \<Rightarrow> 'e \<Rightarrow> handle \<Rightarrow> bool" where
  "invalidated lt e h = (lt_status lt e h = Inl RuntimeError)"

text \<open>\<^verbatim>\<open>handle.status()\<close> reports the handle invalid, or returns a status whose eta
  is computed without an exception.\<close>

definition answers :: "'e libtorrent \<Rightarrow> 'e \<Rightarrow> handle \<Rightarrow> bool" where
  "answers lt e h =
     (case lt_status lt e h of
        Inr s \<Rightarrow> \<not> isl (eta_of lt e h s)
      | Inl ex \<Rightarrow> ex = RuntimeError)"

text \<open>The snapshots one tracked entry contributes: one when its status is available.\<close>

definition entries_of :: "'e libtorrent \<Rightarrow> 'e \<Rightarrow> string \<times> handle \<Rightarrow> snapshot list" where
  "entries_of lt e p =
     (case lt_status lt e (snd p) of
        Inr s \<Rightarrow>
          (case eta_of lt e (snd p) s of
             Inr eta_sec \<Rightarrow> [status_entry lt e (fst p) (snd p) s eta_sec]
           | Inl _ \<Rightarrow> [])
      | Inl _ \<Rightarrow> [])"

text \<open>Every key of the live handle map is a key of the descriptor map.\<close>

definition maps_inv :: "'e torrent_engine \<Rightarrow> bool" where
  "maps_inv st = (keys (torrents st) \<subseteq> keys (meta st))"

text \<open>The states a manager passes through: constructed, then any sequence of its public
  methods, the session changing on its own in between.\<close>

inductive reachable :: "'e libtorrent \<Rightarrow> 'e torrent_engine \<Rightarrow> bool"
  for lt :: "'e libtorrent" where
  r_init: "reachable lt (snd (init_engine lt path e sf lf))"
| r_add_torrent_file: "reachable lt st \<Longrightarrow> reachable lt (snd (add_torrent_file lt st p fp))"
| r_add_magnet: "reachable lt st \<Longrightarrow> reachable lt (snd (add_magnet lt st uri))"
| r_get_status_list: "reachable lt st \<Longrightarrow> reachable lt (snd (get_status_list lt st))"
| r_pause: "reachable lt st \<Longrightarrow> reachable lt (pause lt st tid)"
| r_resume: "reachable lt st \<Longrightarrow> reachable lt (resume lt st tid)"
| r_remove: "reachable lt st \<Longrightarrow> reachable lt (remove lt st tid df)"
| r_close: "reachable lt st \<Longrightarrow> reachable lt (close lt st)"
| r_session: "reachable lt st \<Longrightarrow> reachable lt (st\<lparr>session := e\<rparr>)"

text \<open>The file after a successful \<^verbatim>\<open>_save_state\<close> of the descriptor map \<open>m\<close>.\<close>

definition saved :: "pyfile \<Rightarrow> (string \<times> descriptor) list \<Rightarrow> pyfile" where
  "saved f m = f\<lparr>content := Some (Json (state_json m))\<rparr>"

text \<open>The engine takes the descriptor back under its id: the source is not empty, the
  kind is one of the two the restore loop knows, and whatever the session, the add call
  returns a handle whose id is the recorded one.\<close>

definition readds :: "'e libtorrent \<Rightarrow> string \<Rightarrow> string \<times> descriptor \<Rightarrow> bool" where
  "readds lt path p =
     (truthy (d_source (snd p)) \<and>
      (if d_kind (snd p) = ''file''
       then (case lt_torrent_info lt (d_source (snd p)) of
               Inl _ \<Rightarrow> False
             | Inr info \<Rightarrow>
                 (\<forall>e. case lt_add_torrent lt e (TiParams info path None) of
                        (Inl _, _) \<Rightarrow> False
                      | (Inr h, e') \<Rightarrow> get_torrent_id lt e' h = fst p))
       else d_kind (snd p) = ''magnet'' \<and>
            (\<forall>e. case lt_add_torrent lt e (UrlParams (d_source (snd p)) path) of
                   (Inl _, _) \<Rightarrow> False
                 | (Inr h, e') \<Rightarrow> get_torrent_id lt e' h = fst p)))"

subsection \<open>The reconciler as the specification words it\<close>

text \<open>First match wins: paused, seeding, the stalled-transfer relabel, then the label of
  the raw state.\<close>

definition spec_display_state :: "torrent_status \<Rightarrow> string" where
  "spec_display_state s =
     (if s_paused s then ''Paused''
      else if s_is_seeding s then ''Seeding''
      else if 0 < s_progress s \<and> s_progress s < 1 \<and> s_download_rate s < 50 * 1024
        then ''Resuming''
      else if s_state s = 0 then ''Queued''
      else if s_state s = 1 then ''Checking''
      else if s_state s = 2 then ''Downloading metadata''
      else if s_state s = 3 then ''Downloading''
      else if s_state s = 4 then ''Finished''
      else if s_state s = 5 then ''Seeding''
      else if s_state s = 6 then ''Allocating''
      else if s_state s = 7 then ''Checking fastresume''
      else ''Unknown'')"

text \<open>The sum of the sizes of the files whose priority is greater than zero.\<close>

definition selected_size :: "int list \<Rightarrow> (string \<times> int) list \<Rightarrow> int" where
  "selected_size priorities files =
     sum_list (map (\<lambda>pf. snd (snd pf)) (filter (\<lambda>pf. fst pf > 0) (zip priorities files)))"

definition spec_total_size :: "'e libtorrent \<Rightarrow> 'e \<Rightarrow> handle \<Rightarrow> torrent_status \<Rightarrow> int" where
  "spec_total_size lt e h s =
     (case (lt_get_torrent_info lt e h, lt_file_priorities lt e h) of
        (Inr (Some info), Inr ps) \<Rightarrow>
          if length ps = length (ti_files info) \<and> selected_size ps (ti_files info) > 0
          then selected_size ps (ti_files info)
          else s_total_wanted s
      | _ \<Rightarrow> s_total_wanted s)"

text \<open>The float quotient of an integer by a float: the integer as a float, then the
  binary64 quotient; \<open>None\<close> when either step leaves the finite floats.\<close>

definition binary64_quotient :: "int \<Rightarrow> real \<Rightarrow> real option" where
  "binary64_quotient n x =
     (case round64 (of_int n) of None \<Rightarrow> None | Some a \<Rightarrow> round64 (a / x))"

text \<open>The floor of the quotient when both are positive, \<open>-1\<close> otherwise; a quotient
  that is not finite has no floor, and the query raises.\<close>

definition spec_eta :: "int \<Rightarrow> int \<Rightarrow> real \<Rightarrow> exn + int" where
  "spec_eta total_size downloaded download_rate =
     (let remaining = max 0 (total_size - downloaded)
      in if download_rate > 0 \<and> remaining > 0
         then (case binary64_quotient remaining download_rate of
                 None \<Rightarrow> Inl OverflowError
               | Some q \<Rightarrow> Inr \<lfloor>q\<rfloor>)
         else Inr (- 1))"

subsection \<open>An example engine\<close>

text \<open>A session is the list of the parameters it was given; a handle is an index into
  it. The id of a torrent is the name of its info or its magnet URI. The file
  \<^verbatim>\<open>gone.torrent\<close> cannot be parsed, magnet handles have been invalidated, and
  \<^verbatim>\<open>remove_torrent\<close> always raises.\<close>

definition demo_info :: "string \<Rightarrow> torrent_info" where
  "demo_info n = \<lparr>ti_name = n, ti_files = [(''a.bin'', 100), (''b.bin'', 200)]\<rparr>"

definition demo_status :: torrent_status where
  "demo_status =
     \<lparr>s_state = 3, s_total_done = 420, s_total_wanted = 1000, s_progress = 42 / 100,
      s_download_rate = 10000, s_upload_rate = 0, s_name = ''ubuntu.iso'', s_paused = False,
      s_is_seeding = False, s_num_peers = 5\<rparr>"

definition demo_lt :: "add_params list libtorrent" where
  "demo_lt =
     \<lparr>lt_torrent_info =
        (\<lambda>p. case p of
                JStr s \<Rightarrow> if s = ''gone.torrent'' then Inl RuntimeError else Inr (demo_info s)
              | _ \<Rightarrow> Inl TypeError),
      lt_add_torrent = (\<lambda>e p. (Inr (length e), e @ [p])),
      lt_info_hash =
        (\<lambda>e h. if h < length e
                then (case e ! h of
                        TiParams info _ _ \<Rightarrow> Inr (ti_name info)
                      | UrlParams (JStr u) _ \<Rightarrow> Inr u
                      | UrlParams _ _ \<Rightarrow> Inl RuntimeError)
                else Inl RuntimeError),
      lt_id = (\<lambda>h. ''0x7f3a''),
      lt_status =
        (\<lambda>e h. if h < length e
                then (case e ! h of
                        TiParams _ _ _ \<Rightarrow> Inr demo_status
                      | UrlParams _ _ \<Rightarrow> Inl RuntimeError)
                else Inl RuntimeError),
      lt_get_torrent_info =
        (\<lambda>e h. if h < length e
                then (case e ! h of
                        TiParams info _ _ \<Rightarrow> Inr (Some info)
                      | UrlParams _ _ \<Rightarrow> Inr None)
                else Inl RuntimeError),
      lt_file_priorities =
        (\<lambda>e h. if h < length e
                then (case e ! h of
                        TiParams info _ (Some ps) \<Rightarrow> Inr ps
                      | TiParams info _ None \<Rightarrow> Inr (map (\<lambda>_. 4) (ti_files info))
                      | UrlParams _ _ \<Rightarrow> Inl RuntimeError)
                else Inl RuntimeError),
      lt_pause = (\<lambda>e h. (Inr (), e)),
      lt_resume = (\<lambda>e h. (Inr (), e)),
      lt_remove_torrent = (\<lambda>e h delete_files. (Inl RuntimeError, e)),
      lt_has_options_t = True\<rparr>"

definition absent :: pyfile where
  "absent = \<lparr>content = None, readable = True, writable = True, removable = True\<rparr>"

definition holding :: "json \<Rightarrow> pyfile" where
  "holding j = \<lparr>content = Some (Json j), readable = True, writable = True, removable = True\<rparr>"

definition demo_file :: "string \<times> descriptor" where
  "demo_file = (''a.torrent'', \<lparr>d_kind = ''file'', d_source = JStr ''a.torrent''\<rparr>)"

definition demo_magnet :: "string \<times> descriptor" where
  "demo_magnet = (''magnet:?xt=urn:btih:abc'',
                  \<lparr>d_kind = ''magnet'', d_source = JStr ''magnet:?xt=urn:btih:abc''\<rparr>)"

definition demo_gone :: "string \<times> descriptor" where
  "demo_gone = (''gone.torrent'', \<lparr>d_kind = ''file'', d_source = JStr ''gone.torrent''\<rparr>)"

text \<open>A manager that tracks one torrent file and one magnet, its state file in step.\<close>

definition demo_state :: "add_params list torrent_engine" where
  "demo_state =
     \<lparr>download_path = ''/dl'',
      session = [TiParams (demo_info ''a.torrent'') ''/dl'' None,
                 UrlParams (JStr ''magnet:?xt=urn:btih:abc'') ''/dl''],
      torrents = [(''a.torrent'', 0), (''magnet:?xt=urn:btih:abc'', 1)],
      meta = [demo_file, demo_magnet],
      state_file = holding (state_json [demo_file, demo_magnet]),
      legacy_state_file = absent\<rparr>"

section \<open>Lemmas\<close>

lemma state_of_cases:
  "state_of s =
     (if s_state s = 0 then ''Queued''
      else if s_state s = 1 then ''Checking''
      else if s_state s = 2 then ''Downloading metadata''
      else if s_state s = 3 then ''Downloading''
      else if s_state s = 4 then ''Finished''
      else if s_state s = 5 then ''Seeding''
      else if s_state s = 6 then ''Allocating''
      else if s_state s = 7 then ''Checking fastresume''
      else ''Unknown'')"
proof -
  consider "s_state s < 0" | "s_state s = 0" | "s_state s = 1" | "s_state s = 2" | "s_state s = 3"
    | "s_state s = 4" | "s_state s = 5" | "s_state s = 6" | "s_state s = 7" | "s_state s > 7"
    by linarith
  then show ?thesis
    by cases (simp_all add: state_of_def state_names_def)
qed

lemma r_state_entry:
  "r_state (status_entry lt e tid h s eta_sec) =
     display_state_of (state_of s) (s_paused s) (s_is_seeding s) (s_progress s) (s_download_rate s)"
  by (simp add: status_entry_def Let_def)

lemma size_sum_loop_acc:
  "size_sum_loop ps fs idxs acc =
     acc + sum_list (map (\<lambda>i. snd (fs ! i)) (filter (\<lambda>i. ps ! i > 0) idxs))"
  by (induction idxs arbitrary: acc) simp_all

lemma zip_as_upt:
  assumes "length ps = length fs"
  shows "zip ps fs = map (\<lambda>i. (ps ! i, fs ! i)) [0..<length fs]"
  using assms by (intro nth_equalityI) simp_all

lemma size_sum_loop_selected:
  assumes "length ps = length fs"
  shows "size_sum_loop ps fs [0..<length fs] 0 = selected_size ps fs"
  unfolding size_sum_loop_acc selected_size_def zip_as_upt [OF assms]
  by (simp add: filter_map comp_def)

lemma selected_size_Nil: "selected_size [] fs = 0"
  by (simp add: selected_size_def)

lemma total_size_of_spec: "total_size_of lt e h s = spec_total_size lt e h s"
proof (cases "lt_get_torrent_info lt e h")
  case (Inl ex)
  then show ?thesis by (simp add: total_size_of_def spec_total_size_def)
next
  case (Inr oi)
  show ?thesis
  proof (cases oi)
    case None
    with Inr show ?thesis by (simp add: total_size_of_def spec_total_size_def)
  next
    case (Some info)
    show ?thesis
    proof (cases "lt_file_priorities lt e h")
      case (Inl ex)
      with Inr Some show ?thesis by (simp add: total_size_of_def spec_total_size_def)
    next
      case ps: (Inr ps)
      show ?thesis
      proof (cases "length ps = length (ti_files info)")
        case True
        with Inr Some ps show ?thesis
          by (cases "ps = []")
             (auto simp: total_size_of_def spec_total_size_def Let_def size_sum_loop_selected
                         selected_size_Nil)
      next
        case False
        with Inr Some ps show ?thesis by (simp add: total_size_of_def spec_total_size_def)
      qed
    qed
  qed
qed

text \<open>The float division: signs, the exponent, and the two ways out of the finite floats.\<close>

lemma pow2_pos: "0 < pow2 k"
  by (simp add: pow2_def)

lemma pow2_powr: "pow2 k = 2 powr (of_int k)"
proof (cases "k \<ge> 0")
  case True
  then obtain n where k: "k = int n" using zero_le_imp_eq_int by blast
  have "(2::real) powr (real n) = 2 ^ n" by (simp add: powr_realpow)
  with k show ?thesis by (simp add: pow2_def)
next
  case False
  then obtain n where k: "k = - int n" by (metis int_cases2 nle_le of_nat_0_le_iff)
  have "(2::real) powr (- real n) = 1 / 2 ^ n" by (simp add: powr_minus_divide powr_realpow)
  with k False show ?thesis by (simp add: pow2_def)
qed

lemma expo_eqI:
  assumes "pow2 k \<le> x" and "x < pow2 (k + 1)"
  shows "\<lfloor>log 2 x\<rfloor> = k"
proof -
  from assms(1) pow2_pos [of k] have "0 < x" by linarith
  then show ?thesis
    using assms by (simp add: floor_log_eq_powr_iff pow2_powr)
qed

lemma round_half_even_nonneg: "0 \<le> y \<Longrightarrow> 0 \<le> round_half_even y"
  by (simp add: round_half_even_def Let_def)

lemma round64_nonneg:
  assumes "0 \<le> x" and "round64 x = Some r"
  shows "0 \<le> r"
proof (cases "x = 0")
  case True
  with assms show ?thesis by (simp add: round64_def)
next
  case False
  with assms(1) have "sgn x = 1" by simp
  moreover have "0 \<le> of_int (round_half_even (\<bar>x\<bar> / pow2 k)) * pow2 k" for k
    using round_half_even_nonneg [of "\<bar>x\<bar> / pow2 k"] pow2_pos [of k] by simp
  ultimately show ?thesis
    using assms(2) False by (auto simp: round64_def Let_def split: if_splits)
qed

lemma eta_sec_of_spec: "eta_sec_of t d r = spec_eta t d r"
proof (cases "r > 0 \<and> max 0 (t - d) > 0")
  case False
  then show ?thesis by (auto simp: eta_sec_of_def spec_eta_def Let_def)
next
  case True
  let ?n = "max 0 (t - d)"
  show ?thesis
  proof (cases "round64 (of_int ?n)")
    case None
    with True show ?thesis
      by (simp add: eta_sec_of_def spec_eta_def Let_def int_truediv_def binary64_quotient_def)
  next
    case (Some a)
    from round64_nonneg [OF _ Some] have a: "0 \<le> a" by simp
    show ?thesis
    proof (cases "round64 (a / r)")
      case None
      with True Some show ?thesis
        by (simp add: eta_sec_of_def spec_eta_def Let_def int_truediv_def binary64_quotient_def
              py_int_def)
    next
      case q: (Some q)
      from a True have "0 \<le> a / r" by simp
      from round64_nonneg [OF this q] have "0 \<le> q" .
      with True Some q show ?thesis
        by (simp add: eta_sec_of_def spec_eta_def Let_def int_truediv_def binary64_quotient_def
              py_int_def)
    qed
  qed
qed

lemma round_half_even_ge_floor: "\<lfloor>y\<rfloor> \<le> round_half_even y"
  by (simp add: round_half_even_def Let_def)

lemma round_half_even_le: "round_half_even y \<le> \<lfloor>y\<rfloor> + 1"
  by (simp add: round_half_even_def Let_def)

lemma round_half_even_of_int: "round_half_even (of_int n) = n"
  by (simp add: round_half_even_def)

lemma round_half_even_down:
  "of_int f \<le> y \<Longrightarrow> y < of_int f + 1 / 2 \<Longrightarrow> round_half_even y = f"
proof -
  assume a: "of_int f \<le> y" "y < of_int f + 1 / 2"
  then have "\<lfloor>y\<rfloor> = f" by (simp add: floor_eq_iff)
  with a show ?thesis by (simp add: round_half_even_def)
qed

lemma round_half_even_up:
  "of_int f + 1 / 2 < y \<Longrightarrow> y < of_int f + 1 \<Longrightarrow> round_half_even y = f + 1"
proof -
  assume a: "of_int f + 1 / 2 < y" "y < of_int f + 1"
  then have "\<lfloor>y\<rfloor> = f" by (simp add: floor_eq_iff)
  with a show ?thesis by (simp add: round_half_even_def)
qed

lemma round_half_even_tie:
  "y = of_int f + 1 / 2 \<Longrightarrow> even f \<Longrightarrow> round_half_even y = f"
proof -
  assume a: "y = of_int f + 1 / 2" "even f"
  then have "\<lfloor>y\<rfloor> = f" by (simp add: floor_eq_iff)
  with a show ?thesis by (simp add: round_half_even_def)
qed

lemma pow2_add: "pow2 (a + b) = pow2 a * pow2 b"
  by (simp add: pow2_powr powr_add)

lemma pow2_mono: "a \<le> b \<Longrightarrow> pow2 a \<le> pow2 b"
  by (simp add: pow2_powr)

lemma pow2_strict_mono: "a < b \<Longrightarrow> pow2 a < pow2 b"
  by (simp add: pow2_powr)

lemma pow2_inverse: "1 / pow2 k = pow2 (- k)"
  by (simp add: pow2_powr powr_minus_divide)

lemma round64_positive:
  assumes "0 < x" and "pow2 k \<le> x" and "x < pow2 (k + 1)" and "- 1022 \<le> k"
  shows "round64 x =
           (if pow2 1024 \<le> of_int (round_half_even (x / pow2 (k - 52))) * pow2 (k - 52)
            then None
            else Some (of_int (round_half_even (x / pow2 (k - 52))) * pow2 (k - 52)))"
proof -
  have "\<lfloor>log 2 x\<rfloor> = k" using assms(2,3) by (rule expo_eqI)
  with assms(1,4) show ?thesis
    by (simp add: round64_def Let_def max_def)
qed

lemma round64_normal:
  assumes "pow2 k \<le> x" and "x < pow2 (k + 1)" and "- 1022 \<le> k" and "k \<le> 1022"
  shows "round64 x = Some (of_int (round_half_even (x / pow2 (k - 52))) * pow2 (k - 52))"
proof -
  let ?u = "pow2 (k - 52)"
  have u: "0 < ?u" by (rule pow2_pos)
  from assms(1) pow2_pos [of k] have x: "0 < x" by linarith
  have "pow2 (k + 1) = pow2 53 * ?u" using pow2_add [of 53 "k - 52"] by (simp add: add.commute)
  with assms(2) u have "x / ?u < pow2 53" by (simp add: pos_divide_less_eq)
  moreover have "pow2 53 = of_int (2 ^ 53)" by (simp add: pow2_def)
  ultimately have "\<lfloor>x / ?u\<rfloor> < 2 ^ 53" by (simp add: floor_less_iff)
  with round_half_even_le [of "x / ?u"] have "round_half_even (x / ?u) \<le> 2 ^ 53" by linarith
  then have "(of_int (round_half_even (x / ?u)) :: real) \<le> of_int (2 ^ 53)"
    by (rule of_int_le_iff [THEN iffD2])
  then have "of_int (round_half_even (x / ?u)) * ?u \<le> pow2 53 * ?u"
    using u by (simp add: pow2_def)
  also have "pow2 53 * ?u = pow2 (k + 1)" using pow2_add [of 53 "k - 52"] by (simp add: add.commute)
  also have "\<dots> < pow2 1024" using assms(4) by (intro pow2_strict_mono) simp
  finally have "\<not> pow2 1024 \<le> of_int (round_half_even (x / ?u)) * ?u" by simp
  with round64_positive [OF x assms(1,2,3)] show ?thesis by simp
qed

lemma round64_overflow:
  assumes "pow2 1024 \<le> x"
  shows "round64 x = None"
proof -
  from assms pow2_pos [of 1024] have x: "0 < x" by linarith
  define E where "E = \<lfloor>log 2 x\<rfloor>"
  from x have lo: "pow2 E \<le> x" and hi: "x < pow2 (E + 1)"
    using floor_log_eq_powr_iff [of x 2 E] by (simp_all add: E_def pow2_powr)
  have E: "1024 \<le> E"
  proof (rule ccontr)
    assume "\<not> 1024 \<le> E"
    then have "E + 1 \<le> 1024" by simp
    from pow2_mono [OF this] hi assms show False by linarith
  qed
  let ?u = "pow2 (E - 52)"
  have u: "0 < ?u" by (rule pow2_pos)
  have "pow2 E = pow2 52 * ?u" using pow2_add [of 52 "E - 52"] by simp
  with lo u have "pow2 52 \<le> x / ?u" by (simp add: pos_le_divide_eq)
  moreover have "pow2 52 = of_int (2 ^ 52)" by (simp add: pow2_def)
  ultimately have "(2 ^ 52 :: int) \<le> \<lfloor>x / ?u\<rfloor>" by (simp add: le_floor_iff)
  with round_half_even_ge_floor [of "x / ?u"]
  have "(2 ^ 52 :: int) \<le> round_half_even (x / ?u)" by linarith
  then have "of_int (2 ^ 52) \<le> (of_int (round_half_even (x / ?u)) :: real)"
    by (rule of_int_le_iff [THEN iffD2])
  then have "pow2 52 * ?u \<le> of_int (round_half_even (x / ?u)) * ?u"
    using u by (simp add: pow2_def)
  also have "pow2 52 * ?u = pow2 E" using pow2_add [of 52 "E - 52"] by simp
  finally have "pow2 1024 \<le> of_int (round_half_even (x / ?u)) * ?u"
    using pow2_mono [OF E] by linarith
  moreover have "- 1022 \<le> E" using E by simp
  ultimately show ?thesis
    using round64_positive [OF x lo hi] by simp
qed

text \<open>The division at concrete operands: \<^verbatim>\<open>int(580 / 100.0)\<close> is 5; the integer
  \<open>2 ^ 53 + 1\<close> becomes the float \<open>2 ^ 53\<close>; one divided by the float nearest to a tenth
  is the float ten; and a quotient by the smallest positive float is not finite.\<close>

lemma round64_580: "round64 580 = Some 580"
proof -
  have y: "580 / pow2 (9 - 52) = real_of_int 5101733952880640" by (simp add: pow2_def)
  have "round64 580 = Some (of_int (round_half_even (580 / pow2 (9 - 52))) * pow2 (9 - 52))"
    by (rule round64_normal) (simp_all add: pow2_def)
  also have "\<dots> = Some 580"
    unfolding y round_half_even_of_int by (simp add: pow2_def)
  finally show ?thesis .
qed

lemma round64_29_5: "round64 (580 / 100) = Some (6530219459687219 * pow2 (- 50))"
proof -
  have "round_half_even (580 / 100 / pow2 (2 - 52)) = 6530219459687219"
    by (rule round_half_even_down) (simp_all add: pow2_def)
  moreover
  have "round64 (580 / 100)
          = Some (of_int (round_half_even (580 / 100 / pow2 (2 - 52))) * pow2 (2 - 52))"
    by (rule round64_normal) (simp_all add: pow2_def)
  ultimately show ?thesis by simp
qed

lemma eta_example: "eta_sec_of 1000 420 100 = Inr 5"
proof -
  have "\<lfloor>6530219459687219 * pow2 (- 50)\<rfloor> = 5" by (simp add: floor_eq_iff pow2_def)
  moreover have "0 \<le> 6530219459687219 * pow2 (- 50)" by (simp add: pow2_def)
  ultimately show ?thesis
    using round64_580 round64_29_5
    by (simp add: eta_sec_of_def int_truediv_def py_int_def)
qed

lemma round64_tie: "round64 9007199254740993 = Some 9007199254740992"
proof -
  have "round_half_even (9007199254740993 / pow2 (53 - 52)) = 4503599627370496"
    by (rule round_half_even_tie) (simp_all add: pow2_def)
  moreover
  have "round64 9007199254740993
          = Some (of_int (round_half_even (9007199254740993 / pow2 (53 - 52))) * pow2 (53 - 52))"
    by (rule round64_normal) (simp_all add: pow2_def)
  ultimately show ?thesis by (simp add: pow2_def)
qed

lemma round64_two53: "round64 9007199254740992 = Some 9007199254740992"
proof -
  have y: "9007199254740992 / pow2 (53 - 52) = real_of_int 4503599627370496"
    by (simp add: pow2_def)
  have "round64 9007199254740992
          = Some (of_int (round_half_even (9007199254740992 / pow2 (53 - 52))) * pow2 (53 - 52))"
    by (rule round64_normal) (simp_all add: pow2_def)
  also have "\<dots> = Some 9007199254740992"
    unfolding y round_half_even_of_int by (simp add: pow2_def)
  finally show ?thesis .
qed

lemma eta_large: "eta_sec_of 9007199254740993 0 1 = Inr 9007199254740992"
  using round64_tie round64_two53
  by (simp add: eta_sec_of_def int_truediv_def py_int_def)

lemma round64_1: "round64 1 = Some 1"
proof -
  have y: "1 / pow2 (0 - 52) = real_of_int 4503599627370496" by (simp add: pow2_def)
  have "round64 1 = Some (of_int (round_half_even (1 / pow2 (0 - 52))) * pow2 (0 - 52))"
    by (rule round64_normal) (simp_all add: pow2_def)
  also have "\<dots> = Some 1"
    unfolding y round_half_even_of_int by (simp add: pow2_def)
  finally show ?thesis .
qed

lemma round64_tenth: "round64 (1 / (3602879701896397 / 36028797018963968)) = Some 10"
proof -
  let ?x = "1 / (3602879701896397 / 36028797018963968) :: real"
  have "round_half_even (?x / pow2 (3 - 52)) = 5629499534213119 + 1"
    by (rule round_half_even_up) (simp_all add: pow2_def)
  moreover
  have "round64 ?x = Some (of_int (round_half_even (?x / pow2 (3 - 52))) * pow2 (3 - 52))"
    by (rule round64_normal) (simp_all add: pow2_def)
  ultimately show ?thesis by (simp add: pow2_def)
qed

lemma eta_tenth: "eta_sec_of 1 0 (3602879701896397 / 36028797018963968) = Inr 10"
  using round64_1 round64_tenth
  by (simp add: eta_sec_of_def int_truediv_def py_int_def)

lemma eta_overflow: "eta_sec_of 1000 420 (pow2 (- 1074)) = Inl OverflowError"
proof -
  have "pow2 1024 \<le> pow2 1074" by (rule pow2_mono) simp
  also have "pow2 1074 \<le> 580 * pow2 1074" using pow2_pos [of 1074] by simp
  finally have "round64 (580 * pow2 1074) = None" by (rule round64_overflow)
  moreover have "580 / pow2 (- 1074) = 580 * pow2 1074"
    using pow2_inverse [of "- 1074"] by simp
  ultimately show ?thesis
    using round64_580 pow2_pos [of "- 1074"]
    by (simp add: eta_sec_of_def int_truediv_def py_int_def)
qed

lemma status_loop_answers:
  assumes "\<forall>p \<in> set items. answers lt e (snd p)"
  shows "status_loop lt e items result to_remove =
           Inr (result @ concat (map (entries_of lt e) items),
                to_remove @ map fst (filter (\<lambda>p. invalidated lt e (snd p)) items))"
  using assms
proof (induction items arbitrary: result to_remove)
  case Nil
  then show ?case by simp
next
  case (Cons p items)
  obtain tid h where p: "p = (tid, h)" by (cases p)
  from Cons.prems have rest: "\<forall>q \<in> set items. answers lt e (snd q)" by simp
  from Cons.prems p have a: "answers lt e h" by simp
  show ?case
  proof (cases "lt_status lt e h")
    case (Inl ex)
    with a have "ex = RuntimeError" by (simp add: answers_def)
    with Inl p show ?thesis
      by (simp add: Cons.IH [OF rest] entries_of_def invalidated_def)
  next
    case (Inr s)
    with a obtain eta_sec where "eta_of lt e h s = Inr eta_sec"
      by (cases "eta_of lt e h s") (simp_all add: answers_def)
    with Inr p show ?thesis
      by (simp add: Cons.IH [OF rest] entries_of_def invalidated_def)
  qed
qed

lemma status_loop_raises:
  assumes "\<not> (\<forall>p \<in> set items. answers lt e (snd p))"
  shows "\<exists>ex. status_loop lt e items result to_remove = Inl ex"
  using assms
proof (induction items arbitrary: result to_remove)
  case Nil
  then show ?case by simp
next
  case (Cons p items)
  obtain tid h where p: "p = (tid, h)" by (cases p)
  show ?case
  proof (cases "lt_status lt e h")
    case (Inl ex)
    show ?thesis
    proof (cases "ex = RuntimeError")
      case True
      with Inl p Cons.prems have "\<not> (\<forall>q \<in> set items. answers lt e (snd q))"
        by (simp add: answers_def)
      from Cons.IH [OF this] Inl True p show ?thesis by simp
    next
      case False
      with Inl p show ?thesis by simp
    qed
  next
    case (Inr s)
    show ?thesis
    proof (cases "eta_of lt e h s")
      case (Inl ex)
      with Inr p show ?thesis by simp
    next
      case eta: (Inr eta_sec)
      with Inr p Cons.prems have "\<not> (\<forall>q \<in> set items. answers lt e (snd q))"
        by (simp add: answers_def)
      from Cons.IH [OF this] Inr eta p show ?thesis by simp
    qed
  qed
qed

lemma fold_delete_filter: "fold AList.delete ks xs = filter (\<lambda>p. fst p \<notin> set ks) xs"
proof (induction ks arbitrary: xs)
  case Nil
  then show ?case by simp
next
  case (Cons k ks)
  have "AList.delete k xs = filter (\<lambda>p. fst p \<noteq> k) xs"
    by (auto simp: AList.delete_eq case_prod_unfold intro!: filter_cong)
  then show ?case by (auto simp: Cons.IH intro: filter_cong)
qed

lemma evict_distinct:
  assumes "distinct (map fst xs)"
  shows "filter (\<lambda>p. fst p \<notin> set (map fst (filter (\<lambda>q. P (snd q)) xs))) xs
           = filter (\<lambda>p. \<not> P (snd p)) xs"
proof (rule filter_cong [OF refl])
  fix p assume p: "p \<in> set xs"
  have "fst p \<in> fst ` {q \<in> set xs. P (snd q)} \<longleftrightarrow> P (snd p)"
  proof
    assume "fst p \<in> fst ` {q \<in> set xs. P (snd q)}"
    then obtain q where q: "q \<in> set xs" "P (snd q)" "fst q = fst p" by auto
    from assms have "inj_on fst (set xs)" by (simp add: distinct_map)
    from inj_onD [OF this q(3) q(1) p] have "q = p" .
    with q show "P (snd p)" by simp
  next
    assume "P (snd p)"
    with p show "fst p \<in> fst ` {q \<in> set xs. P (snd q)}" by auto
  qed
  then show "(fst p \<notin> set (map fst (filter (\<lambda>q. P (snd q)) xs))) = (\<not> P (snd p))"
    by simp
qed

lemma get_status_list_answers:
  assumes "\<forall>p \<in> set (torrents st). answers lt (session st) (snd p)"
  shows "get_status_list lt st =
           (Inr (concat (map (entries_of lt (session st)) (torrents st))),
            st\<lparr>torrents := filter (\<lambda>p. fst p \<notin> set (map fst (filter (\<lambda>q. invalidated lt (session st) (snd q)) (torrents st)))) (torrents st)\<rparr>)"
  by (simp add: get_status_list_def status_loop_answers [OF assms] fold_delete_filter)

lemma ids_of_entries:
  assumes "\<forall>p \<in> set items. answers lt e (snd p)"
  shows "map r_id (concat (map (entries_of lt e) items))
           = map fst (filter (\<lambda>p. \<not> invalidated lt e (snd p)) items)"
  using assms
proof (induction items)
  case Nil
  then show ?case by simp
next
  case (Cons p items)
  then show ?case
    by (cases "lt_status lt e (snd p)"; cases "eta_of lt e (snd p) (projr (lt_status lt e (snd p)))")
       (simp_all add: entries_of_def invalidated_def answers_def status_entry_def Let_def)
qed

lemma get_status_list_ids_subset:
  assumes "get_status_list lt st = (Inr result, st')"
  shows "r_id ` set result \<subseteq> keys (torrents st)"
proof (cases "\<forall>p \<in> set (torrents st). answers lt (session st) (snd p)")
  case True
  from assms get_status_list_answers [OF True]
  have "result = concat (map (entries_of lt (session st)) (torrents st))" by simp
  then have "map r_id result = map fst (filter (\<lambda>p. \<not> invalidated lt (session st) (snd p)) (torrents st))"
    using ids_of_entries [OF True] by simp
  then have "set (map r_id result) \<subseteq> set (map fst (torrents st))"
    by auto
  then show ?thesis by (simp add: keys_def)
next
  case False
  from status_loop_raises [OF False, of "[]" "[]"] assms show ?thesis
    by (auto simp: get_status_list_def)
qed

lemma save_state_fields [simp]:
  "torrents (save_state st) = torrents st"
  "meta (save_state st) = meta st"
  "session (save_state st) = session st"
  "download_path (save_state st) = download_path st"
  "legacy_state_file (save_state st) = legacy_state_file st"
  by (simp_all add: save_state_def split: prod.split)

lemma keys_update [simp]: "keys (AList.update k v al) = insert k (keys al)"
  by (simp add: keys_def dom_update)

lemma keys_delete [simp]: "keys (AList.delete k al) = keys al - {k}"
  by (auto simp: keys_def AList.delete_eq)

lemma keys_Nil [simp]: "keys [] = {}"
  by (simp add: keys_def)

lemma record_torrent_fields [simp]:
  "torrents (record_torrent st tid h d) = AList.update tid h (torrents st)"
  "meta (record_torrent st tid h d) = AList.update tid d (meta st)"
  "session (record_torrent st tid h d) = session st"
  "download_path (record_torrent st tid h d) = download_path st"
  "legacy_state_file (record_torrent st tid h d) = legacy_state_file st"
  by (simp_all add: record_torrent_def)

lemma add_torrent_file_maps:
  "add_torrent_file lt st p fp = (r, st') \<Longrightarrow>
     (case r of
        Inl ex \<Rightarrow> torrents st' = torrents st \<and> meta st' = meta st
      | Inr tid \<Rightarrow> (\<exists>h. torrents st' = AList.update tid h (torrents st)
                       \<and> meta st' = AList.update tid \<lparr>d_kind = ''file'', d_source = p\<rparr> (meta st)))"
  by (auto simp: add_torrent_file_def Let_def split: sum.splits prod.splits)

lemma add_magnet_maps:
  "add_magnet lt st uri = (r, st') \<Longrightarrow>
     (case r of
        Inl ex \<Rightarrow> torrents st' = torrents st \<and> meta st' = meta st
      | Inr tid \<Rightarrow> (\<exists>h. torrents st' = AList.update tid h (torrents st)
                       \<and> meta st' = AList.update tid \<lparr>d_kind = ''magnet'', d_source = uri\<rparr> (meta st)))"
  by (auto simp: add_magnet_def Let_def split: sum.splits prod.splits)

lemma add_torrent_file_inv: "maps_inv st \<Longrightarrow> maps_inv (snd (add_torrent_file lt st p fp))"
  using add_torrent_file_maps [of lt st p fp "fst (add_torrent_file lt st p fp)" "snd (add_torrent_file lt st p fp)"]
  by (auto simp: maps_inv_def split: sum.splits)

lemma add_magnet_inv: "maps_inv st \<Longrightarrow> maps_inv (snd (add_magnet lt st uri))"
  using add_magnet_maps [of lt st uri "fst (add_magnet lt st uri)" "snd (add_magnet lt st uri)"]
  by (auto simp: maps_inv_def split: sum.splits)

lemma remove_maps:
  "torrents (remove lt st tid df) = AList.delete tid (torrents st)"
  "meta (remove lt st tid df) = AList.delete tid (meta st)"
  "state_file (remove lt st tid df) = state_file st"
  "legacy_state_file (remove lt st tid df) = legacy_state_file st"
  by (simp_all add: remove_def Let_def split: option.split)

lemma remove_inv: "maps_inv st \<Longrightarrow> maps_inv (remove lt st tid df)"
  by (auto simp: maps_inv_def remove_maps)

lemma pause_maps:
  "torrents (pause lt st tid) = torrents st"
  "meta (pause lt st tid) = meta st"
  "legacy_state_file (pause lt st tid) = legacy_state_file st"
  by (simp_all add: pause_def split: option.split)

lemma resume_maps:
  "torrents (resume lt st tid) = torrents st"
  "meta (resume lt st tid) = meta st"
  "state_file (resume lt st tid) = state_file st"
  "legacy_state_file (resume lt st tid) = legacy_state_file st"
  by (simp_all add: resume_def split: option.split)

lemma close_maps:
  "torrents (close lt st) = []"
  "meta (close lt st) = meta st"
  by (simp_all add: close_def)

lemma get_status_list_maps:
  "meta (snd (get_status_list lt st)) = meta st"
  "state_file (snd (get_status_list lt st)) = state_file st"
  "legacy_state_file (snd (get_status_list lt st)) = legacy_state_file st"
  "keys (torrents (snd (get_status_list lt st))) \<subseteq> keys (torrents st)"
  by (auto simp: get_status_list_def fold_delete_filter keys_def split: sum.splits prod.splits)

lemma get_status_list_inv: "maps_inv st \<Longrightarrow> maps_inv (snd (get_status_list lt st))"
  using get_status_list_maps(4) [of lt st] by (auto simp: maps_inv_def get_status_list_maps(1))

lemma load_items_inv: "maps_inv st \<Longrightarrow> maps_inv (snd (load_items lt st items))"
proof (induction items arbitrary: st)
  case Nil
  then show ?case by simp
next
  case (Cons item items)
  then show ?case
    by (auto simp: add_torrent_file_inv add_magnet_inv split: sum.splits)
qed

lemma read_state_maps:
  "torrents (snd (read_state st)) = torrents st"
  "meta (snd (read_state st)) = meta st"
  "session (snd (read_state st)) = session st"
  "download_path (snd (read_state st)) = download_path st"
  by (simp_all add: read_state_def Let_def split: sum.splits prod.splits)

lemma load_state_inv: "maps_inv st \<Longrightarrow> maps_inv (snd (load_state lt st))"
proof -
  assume inv: "maps_inv st"
  obtain data st1 where rs: "read_state st = (data, st1)" by (cases "read_state st")
  from read_state_maps(1,2) [of st] rs inv have "maps_inv st1" by (simp add: maps_inv_def)
  with rs show ?thesis
    by (auto simp: load_state_def load_items_inv split: sum.splits)
qed

lemma init_engine_inv: "maps_inv (snd (init_engine lt path e sf lf))"
  unfolding init_engine_def
  by (rule load_state_inv) (simp add: maps_inv_def fresh_def)

lemma pause_inv: "maps_inv st \<Longrightarrow> maps_inv (pause lt st tid)"
  by (simp add: maps_inv_def pause_maps)

lemma resume_inv: "maps_inv st \<Longrightarrow> maps_inv (resume lt st tid)"
  by (simp add: maps_inv_def resume_maps)

lemma close_inv: "maps_inv (close lt st)"
  by (simp add: maps_inv_def close_maps)

lemma session_inv: "maps_inv st \<Longrightarrow> maps_inv (st\<lparr>session := e\<rparr>)"
  by (simp add: maps_inv_def)

lemma reachable_inv: "reachable lt st \<Longrightarrow> maps_inv st"
  by (induction rule: reachable.induct)
     (simp_all add: init_engine_inv add_torrent_file_inv add_magnet_inv get_status_list_inv
        remove_inv pause_inv resume_inv close_inv session_inv)

lemma save_state_writable:
  "writable (state_file st) \<Longrightarrow> state_file (save_state st) = saved (state_file st) (meta st)"
  by (simp add: save_state_def write_json_def saved_def)


lemma saved_flags [simp]:
  "writable (saved f m) = writable f"
  "readable (saved f m) = readable f"
  "removable (saved f m) = removable f"
  "content (saved f m) = Some (Json (state_json m))"
  "saved (saved f m) m' = saved f m'"
  by (simp_all add: saved_def)

lemma descriptor_json_get:
  "py_get (descriptor_json p) ''kind'' JNull = Inr (JStr (d_kind (snd p)))"
  "py_get (descriptor_json p) ''source'' JNull = Inr (d_source (snd p))"
  by (simp_all add: descriptor_json_def)

lemma readd_step:
  assumes "readds lt (download_path st) p"
  shows "\<exists>h st'. load_items lt st (descriptor_json p # items) = load_items lt st' items
           \<and> torrents st' = AList.update (fst p) h (torrents st)
           \<and> meta st' = AList.update (fst p) (snd p) (meta st)
           \<and> download_path st' = download_path st
           \<and> legacy_state_file st' = legacy_state_file st
           \<and> state_file st' = snd (write_json (state_file st) (state_json (meta st')))"
proof (cases "d_kind (snd p) = ''file''")
  case True
  from assms True obtain info where
    info: "lt_torrent_info lt (d_source (snd p)) = Inr info"
    and add: "\<And>e. case lt_add_torrent lt e (TiParams info (download_path st) None) of
                   (Inl _, _) \<Rightarrow> False | (Inr h, e') \<Rightarrow> get_torrent_id lt e' h = fst p"
    and src: "truthy (d_source (snd p))"
    by (auto simp: readds_def split: sum.splits)
  obtain r e' where r: "lt_add_torrent lt (session st) (TiParams info (download_path st) None) = (r, e')"
    by (cases "lt_add_torrent lt (session st) (TiParams info (download_path st) None)")
  with add [of "session st"] obtain h where h: "r = Inr h" "get_torrent_id lt e' h = fst p"
    by (cases r) auto
  have d: "\<lparr>d_kind = ''file'', d_source = d_source (snd p)\<rparr> = snd p"
    using True by simp
  let ?st' = "record_torrent (st\<lparr>session := e'\<rparr>) (fst p) h (snd p)"
  have "add_torrent_file lt st (d_source (snd p)) None = (Inr (fst p), ?st')"
    using info r h d by (simp add: add_torrent_file_def Let_def)
  then have "load_items lt st (descriptor_json p # items) = load_items lt ?st' items"
    using True src by (simp add: descriptor_json_get)
  moreover have "state_file ?st' = snd (write_json (state_file st) (state_json (meta ?st')))"
    by (simp add: record_torrent_def save_state_def split: prod.split)
  ultimately show ?thesis
    by (intro exI [of _ h] exI [of _ ?st']) simp
next
  case False
  from assms False have mag: "d_kind (snd p) = ''magnet''"
    and add: "\<And>e. case lt_add_torrent lt e (UrlParams (d_source (snd p)) (download_path st)) of
                   (Inl _, _) \<Rightarrow> False | (Inr h, e') \<Rightarrow> get_torrent_id lt e' h = fst p"
    and src: "truthy (d_source (snd p))"
    by (auto simp: readds_def)
  obtain r e' where r: "lt_add_torrent lt (session st) (UrlParams (d_source (snd p)) (download_path st)) = (r, e')"
    by (cases "lt_add_torrent lt (session st) (UrlParams (d_source (snd p)) (download_path st))")
  with add [of "session st"] obtain h where h: "r = Inr h" "get_torrent_id lt e' h = fst p"
    by (cases r) auto
  have d: "\<lparr>d_kind = ''magnet'', d_source = d_source (snd p)\<rparr> = snd p"
    using mag by simp
  let ?st' = "record_torrent (st\<lparr>session := e'\<rparr>) (fst p) h (snd p)"
  have "add_magnet lt st (d_source (snd p)) = (Inr (fst p), ?st')"
    using r h d by (simp add: add_magnet_def Let_def)
  then have "load_items lt st (descriptor_json p # items) = load_items lt ?st' items"
    using mag src by (simp add: descriptor_json_get)
  moreover have "state_file ?st' = snd (write_json (state_file st) (state_json (meta ?st')))"
    by (simp add: record_torrent_def save_state_def split: prod.split)
  ultimately show ?thesis
    by (intro exI [of _ h] exI [of _ ?st']) simp
qed

lemma update_fresh_key: "k \<notin> keys al \<Longrightarrow> AList.update k v al = al @ [(k, v)]"
  by (induction al) (auto simp: keys_def)

lemma keys_Cons [simp]: "keys (p # al) = insert (fst p) (keys al)"
  by (simp add: keys_def)

lemma keys_append [simp]: "keys (al @ bl) = keys al \<union> keys bl"
  by (auto simp: keys_def)

lemma write_json_writable: "writable f \<Longrightarrow> snd (write_json f (state_json m)) = saved f m"
  by (simp add: write_json_def saved_def)

lemma load_items_readds:
  assumes "\<forall>p \<in> set m. readds lt (download_path st) p"
    and "writable (state_file st)"
    and "distinct (map fst m)"
    and "keys (meta st) \<inter> keys m = {}"
  shows "\<exists>st'. load_items lt st (map descriptor_json m) = (Inr (), st')
           \<and> meta st' = meta st @ m
           \<and> keys (torrents st') = keys (torrents st) \<union> keys m
           \<and> download_path st' = download_path st
           \<and> legacy_state_file st' = legacy_state_file st
           \<and> state_file st' = (if m = [] then state_file st else saved (state_file st) (meta st @ m))"
  using assms
proof (induction m arbitrary: st)
  case Nil
  then show ?case by simp
next
  case (Cons p m)
  from Cons.prems(1) have "readds lt (download_path st) p" by simp
  from readd_step [OF this, of "map descriptor_json m"] obtain h st1 where
    step: "load_items lt st (descriptor_json p # map descriptor_json m)
             = load_items lt st1 (map descriptor_json m)"
    and t1: "torrents st1 = AList.update (fst p) h (torrents st)"
    and m1: "meta st1 = AList.update (fst p) (snd p) (meta st)"
    and d1: "download_path st1 = download_path st"
    and l1: "legacy_state_file st1 = legacy_state_file st"
    and f1: "state_file st1 = snd (write_json (state_file st) (state_json (meta st1)))"
    by blast
  from Cons.prems(4) have "fst p \<notin> keys (meta st)" by auto
  with m1 have m1': "meta st1 = meta st @ [p]" by (simp add: update_fresh_key)
  from f1 Cons.prems(2) have f1': "state_file st1 = saved (state_file st) (meta st1)"
    by (simp add: write_json_writable)
  have p1: "\<forall>q \<in> set m. readds lt (download_path st1) q" using Cons.prems(1) d1 by simp
  have p2: "writable (state_file st1)" using f1' Cons.prems(2) by simp
  have p3: "distinct (map fst m)" using Cons.prems(3) by simp
  have p4: "keys (meta st1) \<inter> keys m = {}"
    using Cons.prems(3,4) m1' by (auto simp: keys_def)
  from Cons.IH [OF p1 p2 p3 p4] obtain st' where
    r: "load_items lt st1 (map descriptor_json m) = (Inr (), st')"
    and rm: "meta st' = meta st1 @ m"
    and rt: "keys (torrents st') = keys (torrents st1) \<union> keys m"
    and rd: "download_path st' = download_path st1"
    and rl: "legacy_state_file st' = legacy_state_file st1"
    and rf: "state_file st' = (if m = [] then state_file st1 else saved (state_file st1) (meta st1 @ m))"
    by blast
  have "load_items lt st (map descriptor_json (p # m)) = (Inr (), st')"
    using step r by simp
  moreover have "meta st' = meta st @ p # m" using rm m1' by simp
  moreover have "keys (torrents st') = keys (torrents st) \<union> keys (p # m)"
    using rt t1 by auto
  moreover have "state_file st' = saved (state_file st) (meta st @ p # m)"
    using rf f1' m1' by (cases "m = []") simp_all
  ultimately show ?case using rd d1 rl l1 by simp
qed

lemma load_state_readds:
  assumes "read_state st = (state_json m, st1)"
    and "\<forall>p \<in> set m. readds lt (download_path st) p"
    and "writable (state_file st1)"
    and "distinct (map fst m)"
    and "meta st = []"
  shows "\<exists>st'. load_state lt st = (Inr (), st')
           \<and> meta st' = m
           \<and> keys (torrents st') = keys (torrents st) \<union> keys m
           \<and> legacy_state_file st' = legacy_state_file st1
           \<and> state_file st' = (if m = [] then state_file st1 else saved (state_file st1) m)"
proof -
  from read_state_maps [of st] assms(1,5)
  have eqs: "meta st1 = []" "torrents st1 = torrents st" "download_path st1 = download_path st"
    by simp_all
  have p1: "\<forall>p \<in> set m. readds lt (download_path st1) p" using assms(2) eqs by simp
  have p4: "keys (meta st1) \<inter> keys m = {}" using eqs by simp
  from load_items_readds [OF p1 assms(3,4) p4] eqs
  obtain st' where "load_items lt st1 (map descriptor_json m) = (Inr (), st')"
    "meta st' = m" "keys (torrents st') = keys (torrents st) \<union> keys m"
    "legacy_state_file st' = legacy_state_file st1"
    "state_file st' = (if m = [] then state_file st1 else saved (state_file st1) m)"
    by auto
  moreover have "load_state lt st = load_items lt st1 (map descriptor_json m)"
    using assms(1) by (simp add: load_state_def state_json_def)
  ultimately show ?thesis by simp
qed

lemma demo_state_eta: "eta_of demo_lt (session demo_state) 0 demo_status = Inr (- 1)"
  by (simp add: eta_of_def eta_sec_of_def total_size_of_def demo_lt_def demo_state_def
        demo_info_def demo_status_def)

lemma demo_state_answers:
  "answers demo_lt (session demo_state) 0" "answers demo_lt (session demo_state) 1"
  "\<not> invalidated demo_lt (session demo_state) 0" "invalidated demo_lt (session demo_state) 1"
proof -
  have s: "lt_status demo_lt (session demo_state) 0 = Inr demo_status"
    "lt_status demo_lt (session demo_state) (Suc 0) = Inl RuntimeError"
    by (simp_all add: demo_lt_def demo_state_def)
  show "answers demo_lt (session demo_state) 0" "answers demo_lt (session demo_state) 1"
    "\<not> invalidated demo_lt (session demo_state) 0" "invalidated demo_lt (session demo_state) 1"
    by (simp_all add: answers_def invalidated_def s demo_state_eta)
qed

lemmas demo_eval =
  init_engine_def load_state_def read_state_def fresh_def exists_file_def read_json_def
  absent_def holding_def add_torrent_file_def add_magnet_def record_torrent_def
  save_state_def write_json_def os_remove_def get_torrent_id_def demo_lt_def demo_info_def
  demo_state_def demo_file_def demo_magnet_def demo_gone_def state_json_def
  descriptor_json_def Let_def

lemma demo_state_built:
  "snd (add_magnet demo_lt
          (snd (add_torrent_file demo_lt (snd (init_engine demo_lt ''/dl'' [] absent absent))
                  (JStr ''a.torrent'') None))
          (JStr ''magnet:?xt=urn:btih:abc''))
     = demo_state"
  by (simp add: init_engine_def load_state_def read_state_def fresh_def exists_file_def
        absent_def holding_def add_torrent_file_def add_magnet_def record_torrent_def
        save_state_def write_json_def get_torrent_id_def demo_lt_def demo_info_def
        demo_state_def demo_file_def demo_magnet_def state_json_def Let_def)

lemma demo_state_reachable: "reachable demo_lt demo_state"
  unfolding demo_state_built [symmetric]
  by (intro r_add_magnet r_add_torrent_file r_init)

lemma load_state_quiet:
  "content sf = None \<or> \<not> readable sf \<or> content sf = Some Garbage \<Longrightarrow>
   content lf = None \<or> \<not> readable lf \<or> content lf = Some Garbage \<Longrightarrow>
   init_engine lt path e sf lf = (Inr (), fresh path e sf lf)"
  by (auto simp: init_engine_def load_state_def read_state_def fresh_def exists_file_def
        read_json_def Let_def)

lemma demo_readds:
  "readds demo_lt ''/dl'' demo_file" "readds demo_lt ''/dl'' demo_magnet"
  by (simp_all add: readds_def demo_lt_def demo_file_def demo_magnet_def demo_info_def
        get_torrent_id_def)


text \<open>The keys of both maps stay distinct, as the keys of a dictionary are.\<close>

lemma add_torrent_file_distinct:
  assumes "distinct (map fst (torrents st)) \<and> distinct (map fst (meta st))"
  shows "distinct (map fst (torrents (snd (add_torrent_file lt st p fp))))
       \<and> distinct (map fst (meta (snd (add_torrent_file lt st p fp))))"
  using assms
    add_torrent_file_maps [of lt st p fp "fst (add_torrent_file lt st p fp)"
      "snd (add_torrent_file lt st p fp)"]
  by (auto simp: distinct_update split: sum.splits)

lemma add_magnet_distinct:
  assumes "distinct (map fst (torrents st)) \<and> distinct (map fst (meta st))"
  shows "distinct (map fst (torrents (snd (add_magnet lt st uri))))
       \<and> distinct (map fst (meta (snd (add_magnet lt st uri))))"
  using assms
    add_magnet_maps [of lt st uri "fst (add_magnet lt st uri)" "snd (add_magnet lt st uri)"]
  by (auto simp: distinct_update split: sum.splits)

lemma load_items_distinct:
  "distinct (map fst (torrents st)) \<and> distinct (map fst (meta st)) \<Longrightarrow>
   distinct (map fst (torrents (snd (load_items lt st items))))
     \<and> distinct (map fst (meta (snd (load_items lt st items))))"
proof (induction items arbitrary: st)
  case Nil
  then show ?case by simp
next
  case (Cons item items)
  note f = Cons.IH [OF add_torrent_file_distinct [OF Cons.prems]]
  note m = Cons.IH [OF add_magnet_distinct [OF Cons.prems]]
  note s = Cons.IH [OF Cons.prems]
  show ?case
    using f m s Cons.prems by (simp split: sum.splits)
qed

lemma get_status_list_distinct:
  "distinct (map fst (torrents st)) \<Longrightarrow>
   distinct (map fst (torrents (snd (get_status_list lt st))))"
  by (auto simp: get_status_list_def fold_delete_filter distinct_map_filter
        split: sum.splits prod.splits)

lemma init_engine_distinct:
  "distinct (map fst (torrents (snd (init_engine lt path e sf lf))))
     \<and> distinct (map fst (meta (snd (init_engine lt path e sf lf))))"
proof -
  let ?st = "fresh path e sf lf"
  obtain data st1 where rs: "read_state ?st = (data, st1)" by (cases "read_state ?st")
  from read_state_maps(1,2) [of ?st] rs
  have d: "distinct (map fst (torrents st1)) \<and> distinct (map fst (meta st1))"
    by (simp add: fresh_def)
  show ?thesis
    using rs d load_items_distinct [OF d]
    by (simp add: init_engine_def load_state_def split: sum.splits)
qed

lemma reachable_distinct:
  "reachable lt st \<Longrightarrow> distinct (map fst (torrents st)) \<and> distinct (map fst (meta st))"
proof (induction rule: reachable.induct)
  case (r_init path e sf lf)
  show ?case by (rule init_engine_distinct)
next
  case (r_add_torrent_file st p fp)
  then show ?case by (intro add_torrent_file_distinct)
next
  case (r_add_magnet st uri)
  then show ?case by (intro add_magnet_distinct)
next
  case (r_get_status_list st)
  then show ?case by (simp add: get_status_list_distinct get_status_list_maps)
next
  case (r_pause st tid)
  then show ?case by (simp add: pause_maps)
next
  case (r_resume st tid)
  then show ?case by (simp add: resume_maps)
next
  case (r_remove st tid df)
  then show ?case by (simp add: remove_maps distinct_delete)
next
  case (r_close st)
  then show ?case by (simp add: close_maps)
next
  case (r_session st e)
  then show ?case by simp
qed

lemma eta_of_spec:
  "eta_of lt e h s = spec_eta (spec_total_size lt e h s) (s_total_done s) (s_download_rate s)"
  by (simp add: eta_of_def eta_sec_of_spec total_size_of_spec)

lemma status_entry_fields:
  "r_eta (status_entry lt e tid h s eta_sec) = eta_sec"
  "r_total_size (status_entry lt e tid h s eta_sec) = total_size_of lt e h s"
  "r_downloaded (status_entry lt e tid h s eta_sec) = s_total_done s"
  "r_id (status_entry lt e tid h s eta_sec) = tid"
  by (simp_all add: status_entry_def Let_def)

lemma demo_total_size:
  "spec_total_size demo_lt [] 0 s = s_total_wanted s"
  by (simp add: spec_total_size_def demo_lt_def)

section \<open>The status reconciler\<close>

text \<open>
  Claim C3. For every raw engine status the display state is derived by first-match
  precedence: \<^verbatim>\<open>Paused\<close> whenever the paused flag is set, whatever the raw state and the
  seeding flag; else \<^verbatim>\<open>Seeding\<close> whenever the seeding flag is set; else \<^verbatim>\<open>Resuming\<close>
  whenever \<open>0 < progress < 1\<close> and the download rate is below 50 KiB/s; else the label of
  the raw state among the eight fixed ones, \<^verbatim>\<open>Unknown\<close> outside \<open>0..7\<close>. This holds of
  the entry whatever its eta.
\<close>

theorem display_state_precedence:
  "r_state (status_entry lt e tid h s eta_sec) = spec_display_state s"
  unfolding r_state_entry spec_display_state_def display_state_of_def Let_def state_of_cases
  by simp

theorem display_state_precedence_witness:
  "r_state (status_entry demo_lt [] ''t'' 0 demo_status 0) = ''Resuming''
   \<and> r_state (status_entry demo_lt [] ''t'' 0
         (demo_status\<lparr>s_paused := True, s_is_seeding := True\<rparr>) 0) = ''Paused''
   \<and> r_state (status_entry demo_lt [] ''t'' 0 (demo_status\<lparr>s_is_seeding := True\<rparr>) 0)
       = ''Seeding''
   \<and> r_state (status_entry demo_lt [] ''t'' 0 (demo_status\<lparr>s_download_rate := 60000\<rparr>) 0)
       = ''Downloading''
   \<and> r_state (status_entry demo_lt [] ''t'' 0 (demo_status\<lparr>s_state := 8, s_progress := 0\<rparr>) 0)
       = ''Unknown''"
  using display_state_precedence [of demo_lt "[]" "''t''" 0 demo_status 0]
    display_state_precedence [of demo_lt "[]" "''t''" 0 "demo_status\<lparr>s_paused := True, s_is_seeding := True\<rparr>" 0]
    display_state_precedence [of demo_lt "[]" "''t''" 0 "demo_status\<lparr>s_is_seeding := True\<rparr>" 0]
    display_state_precedence [of demo_lt "[]" "''t''" 0 "demo_status\<lparr>s_download_rate := 60000\<rparr>" 0]
    display_state_precedence [of demo_lt "[]" "''t''" 0 "demo_status\<lparr>s_state := 8, s_progress := 0\<rparr>" 0]
  by (simp add: spec_display_state_def demo_status_def)

text \<open>
  Claim C4, as amended. With \<open>remaining = max 0 (total_size - downloaded)\<close>: when the
  download rate and the remaining size are both positive, the eta is the floor of the
  float quotient \<^verbatim>\<open>remaining / download_rate\<close> (the remaining size converted to binary64,
  then the binary64 quotient) if that quotient is finite, and the status query raises
  \<^verbatim>\<open>OverflowError\<close> if it is not; otherwise the eta is \<open>-1\<close>. In particular it is \<open>-1\<close>
  whenever the download rate is zero or nothing remains. The progress field plays no
  part. The eta so computed is the one the entry reports, and its exception is the one
  the query leaves with.
\<close>

theorem eta_from_remaining:
  "eta_of lt e h s = spec_eta (spec_total_size lt e h s) (s_total_done s) (s_download_rate s)
   \<and> status_loop lt e [(tid, h)] [] [] =
       (case lt_status lt e h of
          Inl ex \<Rightarrow> if ex = RuntimeError then Inr ([], [tid]) else Inl ex
        | Inr s' \<Rightarrow>
            (case spec_eta (spec_total_size lt e h s') (s_total_done s') (s_download_rate s') of
               Inl ex \<Rightarrow> Inl ex
             | Inr eta_sec \<Rightarrow> Inr ([status_entry lt e tid h s' eta_sec], [])))
   \<and> r_eta (status_entry lt e tid h s eta_sec) = eta_sec
   \<and> r_total_size (status_entry lt e tid h s eta_sec) = spec_total_size lt e h s
   \<and> r_downloaded (status_entry lt e tid h s eta_sec) = s_total_done s
   \<and> (s_download_rate s \<le> 0 \<or> spec_total_size lt e h s \<le> s_total_done s
        \<longrightarrow> eta_of lt e h s = Inr (- 1))"
proof -
  have loop: "status_loop lt e [(tid, h)] [] [] =
       (case lt_status lt e h of
          Inl ex \<Rightarrow> if ex = RuntimeError then Inr ([], [tid]) else Inl ex
        | Inr s' \<Rightarrow>
            (case spec_eta (spec_total_size lt e h s') (s_total_done s') (s_download_rate s') of
               Inl ex \<Rightarrow> Inl ex
             | Inr eta_sec \<Rightarrow> Inr ([status_entry lt e tid h s' eta_sec], [])))"
    by (simp add: eta_of_spec split: sum.splits)
  have neg: "eta_of lt e h s = Inr (- 1)"
    if "s_download_rate s \<le> 0 \<or> spec_total_size lt e h s \<le> s_total_done s"
    using that unfolding eta_of_spec by (auto simp: spec_eta_def Let_def)
  show ?thesis
    using loop neg by (simp add: eta_of_spec status_entry_fields total_size_of_spec)
qed

theorem eta_from_remaining_witness:
  "s_download_rate (demo_status\<lparr>s_download_rate := 0\<rparr>) \<le> 0
   \<and> eta_of demo_lt [] 0 (demo_status\<lparr>s_download_rate := 0\<rparr>) = Inr (- 1)
   \<and> eta_of demo_lt [] 0 (demo_status\<lparr>s_download_rate := 100\<rparr>) = Inr 5
   \<and> eta_of demo_lt [] 0 (demo_status\<lparr>s_download_rate := pow2 (- 1074)\<rparr>) = Inl OverflowError"
proof -
  note t0 = eta_from_remaining [where lt = demo_lt and e = "[]" and h = 0 and tid = "''t''"
      and eta_sec = 0 and s = "demo_status\<lparr>s_download_rate := 0\<rparr>"]
  note t1 = eta_from_remaining [where lt = demo_lt and e = "[]" and h = 0 and tid = "''t''"
      and eta_sec = 0 and s = "demo_status\<lparr>s_download_rate := 100\<rparr>"]
  note t2 = eta_from_remaining [where lt = demo_lt and e = "[]" and h = 0 and tid = "''t''"
      and eta_sec = 0 and s = "demo_status\<lparr>s_download_rate := pow2 (- 1074)\<rparr>"]
  have h: "s_download_rate (demo_status\<lparr>s_download_rate := 0\<rparr>) \<le> 0" by simp
  from t0 have "s_download_rate (demo_status\<lparr>s_download_rate := 0\<rparr>) \<le> 0
      \<or> spec_total_size demo_lt [] 0 (demo_status\<lparr>s_download_rate := 0\<rparr>)
            \<le> s_total_done (demo_status\<lparr>s_download_rate := 0\<rparr>)
      \<longrightarrow> eta_of demo_lt [] 0 (demo_status\<lparr>s_download_rate := 0\<rparr>) = Inr (- 1)"
    by (elim conjE)
  with h have a: "eta_of demo_lt [] 0 (demo_status\<lparr>s_download_rate := 0\<rparr>) = Inr (- 1)"
    by blast
  from t1 [THEN conjunct1]
  have "eta_of demo_lt [] 0 (demo_status\<lparr>s_download_rate := 100\<rparr>) = spec_eta 1000 420 100"
    by (simp add: demo_total_size demo_status_def)
  with eta_example have b: "eta_of demo_lt [] 0 (demo_status\<lparr>s_download_rate := 100\<rparr>) = Inr 5"
    by (simp add: eta_sec_of_spec)
  from t2 [THEN conjunct1]
  have "eta_of demo_lt [] 0 (demo_status\<lparr>s_download_rate := pow2 (- 1074)\<rparr>)
          = spec_eta 1000 420 (pow2 (- 1074))"
    by (simp add: demo_total_size demo_status_def)
  with eta_overflow
  have c: "eta_of demo_lt [] 0 (demo_status\<lparr>s_download_rate := pow2 (- 1074)\<rparr>)
             = Inl OverflowError"
    by (simp add: eta_sec_of_spec)
  from h a b c show ?thesis by (intro conjI)
qed

text \<open>The claim as first stated also promised \<open>-1\<close> whenever the progress is \<open>1.0\<close>. A
  status with progress \<open>1.0\<close>, 580 bytes remaining and 100 bytes per second is reported
  with eta 5.\<close>

theorem eta_ignores_progress_counterexample:
  "s_progress (demo_status\<lparr>s_progress := 1, s_download_rate := 100\<rparr>) = 1
   \<and> status_loop
        (demo_lt\<lparr>lt_status := \<lambda>e h. Inr (demo_status\<lparr>s_progress := 1, s_download_rate := 100\<rparr>)\<rparr>)
        [] [(''t'', 0)] [] []
       = Inr ([status_entry demo_lt [] ''t'' 0
                 (demo_status\<lparr>s_progress := 1, s_download_rate := 100\<rparr>) 5], [])
   \<and> r_eta (status_entry demo_lt [] ''t'' 0
         (demo_status\<lparr>s_progress := 1, s_download_rate := 100\<rparr>) 5) = 5"
proof -
  let ?c = "demo_status\<lparr>s_progress := 1, s_download_rate := 100\<rparr>"
  let ?lt = "demo_lt\<lparr>lt_status := \<lambda>e h. Inr ?c\<rparr>"
  have t: "total_size_of ?lt [] 0 ?c = 1000"
    by (simp add: total_size_of_def demo_lt_def demo_status_def)
  have "eta_of ?lt [] 0 ?c = eta_sec_of 1000 420 100"
    by (simp add: eta_of_def t) (simp add: demo_status_def)
  with eta_example have eta: "eta_of ?lt [] 0 ?c = Inr 5" by simp
  have same: "status_entry ?lt [] ''t'' 0 ?c 5 = status_entry demo_lt [] ''t'' 0 ?c 5"
    by (simp add: status_entry_def total_size_of_def name_of_def Let_def demo_lt_def)
  have "status_loop ?lt [] [(''t'', 0)] [] [] = Inr ([status_entry ?lt [] ''t'' 0 ?c 5], [])"
    by (simp add: eta)
  with same show ?thesis by (simp add: status_entry_fields)
qed

text \<open>
  Claim C5. The effective total size is the sum of the sizes of the files whose priority
  is greater than zero when the per-file priorities are retrievable, their count matches
  the torrent's file count and that sum is positive; otherwise it is the wanted total the
  engine reports.
\<close>

theorem effective_total_size:
  "r_total_size (status_entry lt e tid h s eta_sec) = spec_total_size lt e h s"
  by (simp add: status_entry_def Let_def total_size_of_spec)

theorem effective_total_size_witness:
  "r_total_size (status_entry demo_lt [TiParams (demo_info ''a.torrent'') ''/dl'' (Some [0, 1])]
      ''a.torrent'' 0 demo_status 0) = 200
   \<and> r_total_size (status_entry demo_lt [TiParams (demo_info ''a.torrent'') ''/dl'' (Some [0, 0])]
      ''a.torrent'' 0 demo_status 0) = 1000
   \<and> r_total_size (status_entry demo_lt [TiParams (demo_info ''a.torrent'') ''/dl'' (Some [7])]
      ''a.torrent'' 0 demo_status 0) = 1000"
  using effective_total_size [of demo_lt "[TiParams (demo_info ''a.torrent'') ''/dl'' (Some [0, 1])]" "''a.torrent''" 0 demo_status 0]
    effective_total_size [of demo_lt "[TiParams (demo_info ''a.torrent'') ''/dl'' (Some [0, 0])]" "''a.torrent''" 0 demo_status 0]
    effective_total_size [of demo_lt "[TiParams (demo_info ''a.torrent'') ''/dl'' (Some [7])]" "''a.torrent''" 0 demo_status 0]
  by (simp add: spec_total_size_def selected_size_def demo_lt_def demo_info_def demo_status_def)

section \<open>The status query\<close>

text \<open>
  Claim C9, as amended. When the engine reports tracked handles invalid during a status
  query and, for every other tracked handle, the status call returns and the eta is
  computed without an exception, the query returns, and it drops exactly the invalid
  entries from the live handle map: the descriptor map and both state files are as
  before, a dropped id is absent from the live map, from this snapshot list and from the
  list of any following query, and the ids of the snapshots are those of the remaining
  entries, in order.
\<close>

theorem invalid_handle_evicted:
  assumes "distinct (map fst (torrents st))"
    and "\<forall>p \<in> set (torrents st). answers lt (session st) (snd p)"
  shows "\<exists>result st'.
           get_status_list lt st = (Inr result, st')
         \<and> st' = st\<lparr>torrents := filter (\<lambda>p. \<not> invalidated lt (session st) (snd p)) (torrents st)\<rparr>
         \<and> meta st' = meta st
         \<and> state_file st' = state_file st
         \<and> legacy_state_file st' = legacy_state_file st
         \<and> result = concat (map (entries_of lt (session st)) (torrents st))
         \<and> map r_id result = map fst (torrents st')
         \<and> (\<forall>tid h. (tid, h) \<in> set (torrents st) \<and> invalidated lt (session st) h \<longrightarrow>
               tid \<notin> keys (torrents st') \<and> tid \<notin> r_id ` set result
             \<and> (\<forall>lt' e' result' st''.
                   get_status_list lt' (st'\<lparr>session := e'\<rparr>) = (Inr result', st'')
                     \<longrightarrow> tid \<notin> r_id ` set result'))"
proof -
  let ?keep = "filter (\<lambda>p. \<not> invalidated lt (session st) (snd p)) (torrents st)"
  let ?result = "concat (map (entries_of lt (session st)) (torrents st))"
  let ?st' = "st\<lparr>torrents := ?keep\<rparr>"
  have run: "get_status_list lt st = (Inr ?result, ?st')"
    unfolding get_status_list_answers [OF assms(2)]
      evict_distinct [OF assms(1), of "invalidated lt (session st)"] ..
  have ids: "map r_id ?result = map fst ?keep"
    by (rule ids_of_entries [OF assms(2)])
  have gone: "tid \<notin> keys ?keep" if "(tid, h) \<in> set (torrents st)"
    and "invalidated lt (session st) h" for tid h
  proof
    assume "tid \<in> keys ?keep"
    then obtain h' where h': "(tid, h') \<in> set (torrents st)"
      "\<not> invalidated lt (session st) h'"
      by (auto simp: keys_def)
    from assms(1) have "inj_on fst (set (torrents st))" by (simp add: distinct_map)
    from inj_onD [OF this _ h'(1) that(1)] have "h' = h" by simp
    with h'(2) that(2) show False by simp
  qed
  have later: "tid \<notin> r_id ` set result'"
    if "tid \<notin> keys ?keep" and "get_status_list lt' (?st'\<lparr>session := e'\<rparr>) = (Inr result', st'')"
    for tid lt' e' result' st''
    using get_status_list_ids_subset [OF that(2)] that(1) by auto
  have now: "tid \<notin> r_id ` set ?result" if "tid \<notin> keys ?keep" for tid
  proof -
    have "r_id ` set ?result = set (map r_id ?result)" by simp
    also have "\<dots> = keys ?keep" unfolding ids by (simp add: keys_def)
    finally show ?thesis using that by simp
  qed
  have "get_status_list lt st = (Inr ?result, ?st')
         \<and> ?st' = st\<lparr>torrents := ?keep\<rparr>
         \<and> meta ?st' = meta st
         \<and> state_file ?st' = state_file st
         \<and> legacy_state_file ?st' = legacy_state_file st
         \<and> ?result = ?result
         \<and> map r_id ?result = map fst (torrents ?st')
         \<and> (\<forall>tid h. (tid, h) \<in> set (torrents st) \<and> invalidated lt (session st) h \<longrightarrow>
               tid \<notin> keys (torrents ?st') \<and> tid \<notin> r_id ` set ?result
             \<and> (\<forall>lt' e' result' st''.
                   get_status_list lt' (?st'\<lparr>session := e'\<rparr>) = (Inr result', st'')
                     \<longrightarrow> tid \<notin> r_id ` set result'))"
  proof (intro conjI allI impI)
    show "get_status_list lt st = (Inr ?result, ?st')" by (rule run)
    show "map r_id ?result = map fst (torrents ?st')" using ids by simp
  next
    fix tid h assume a: "(tid, h) \<in> set (torrents st) \<and> invalidated lt (session st) h"
    then have g: "tid \<notin> keys ?keep" using gone by blast
    then show "tid \<notin> keys (torrents ?st')" by simp
    from g show "tid \<notin> r_id ` set ?result" by (rule now)
    fix lt' :: "'a libtorrent" and e' result' st''
    assume "get_status_list lt' (?st'\<lparr>session := e'\<rparr>) = (Inr result', st'')"
    with g show "tid \<notin> r_id ` set result'" by (rule later)
  qed simp_all
  then show ?thesis
    by (intro exI [of _ ?result] exI [of _ ?st'])
qed

theorem invalid_handle_evicted_witness:
  "distinct (map fst (torrents demo_state))
   \<and> answers demo_lt (session demo_state) 0
   \<and> answers demo_lt (session demo_state) 1
   \<and> invalidated demo_lt (session demo_state) 1
   \<and> torrents (snd (get_status_list demo_lt demo_state)) = [(''a.torrent'', 0)]
   \<and> meta (snd (get_status_list demo_lt demo_state)) = meta demo_state
   \<and> state_file (snd (get_status_list demo_lt demo_state)) = state_file demo_state
   \<and> (\<exists>result. fst (get_status_list demo_lt demo_state) = Inr result
        \<and> map r_id result = [''a.torrent''])"
proof -
  have h1: "distinct (map fst (torrents demo_state))"
    by (simp add: demo_state_def)
  have h2: "\<forall>p \<in> set (torrents demo_state). answers demo_lt (session demo_state) (snd p)"
    using demo_state_answers by (simp add: demo_state_def)
  have keep: "filter (\<lambda>p. \<not> invalidated demo_lt (session demo_state) (snd p)) (torrents demo_state)
                = [(''a.torrent'', 0)]"
    using demo_state_answers unfolding demo_state_def by simp
  from invalid_handle_evicted [OF h1 h2] obtain result st' where
    r: "get_status_list demo_lt demo_state = (Inr result, st')"
    and s: "st' = demo_state\<lparr>torrents := filter (\<lambda>p. \<not> invalidated demo_lt (session demo_state) (snd p)) (torrents demo_state)\<rparr>"
    and i: "map r_id result = map fst (torrents st')"
    by (elim exE conjE)
  from s keep have t: "torrents st' = [(''a.torrent'', 0)]" by simp
  from s have m: "meta st' = meta demo_state" "state_file st' = state_file demo_state" by simp_all
  from i t have "map r_id result = [''a.torrent'']" by simp
  with r t m h1 demo_state_answers show ?thesis by simp
qed

text \<open>The claim as first stated had no condition on the other handles. With
  \<^verbatim>\<open>a.torrent\<close> reported invalid and the status call of the second handle raising another
  exception, the query raises and \<^verbatim>\<open>a.torrent\<close> stays in the live handle map; likewise
  when the second handle returns a status whose eta overflows.\<close>

theorem invalid_handle_kept_counterexample:
  "(''a.torrent'', 0) \<in> set (torrents demo_state)
   \<and> invalidated
        (demo_lt\<lparr>lt_status := \<lambda>e h. if h = 0 then Inl RuntimeError else Inl OtherException\<rparr>)
        (session demo_state) 0
   \<and> get_status_list
        (demo_lt\<lparr>lt_status := \<lambda>e h. if h = 0 then Inl RuntimeError else Inl OtherException\<rparr>)
        demo_state
       = (Inl OtherException, demo_state)
   \<and> ''a.torrent'' \<in> keys (torrents demo_state)
   \<and> get_status_list
        (demo_lt\<lparr>lt_status := \<lambda>e h. if h = 0 then Inl RuntimeError
                                     else Inr (demo_status\<lparr>s_download_rate := pow2 (- 1074)\<rparr>)\<rparr>)
        demo_state
       = (Inl OverflowError, demo_state)"
proof -
  let ?s = "demo_status\<lparr>s_download_rate := pow2 (- 1074)\<rparr>"
  let ?lt = "demo_lt\<lparr>lt_status := \<lambda>e h. if h = 0 then Inl RuntimeError else Inr ?s\<rparr>"
  have t: "total_size_of ?lt (session demo_state) (Suc 0) ?s = 1000"
    by (simp add: total_size_of_def demo_lt_def demo_state_def demo_status_def)
  have "eta_of ?lt (session demo_state) (Suc 0) ?s = eta_sec_of 1000 420 (pow2 (- 1074))"
    by (simp add: eta_of_def t) (simp add: demo_status_def)
  with eta_overflow have eta: "eta_of ?lt (session demo_state) (Suc 0) ?s = Inl OverflowError"
    by simp
  have tor: "torrents demo_state = [(''a.torrent'', 0), (''magnet:?xt=urn:btih:abc'', Suc 0)]"
    by (simp add: demo_state_def)
  have a: "get_status_list ?lt demo_state = (Inl OverflowError, demo_state)"
    by (simp add: get_status_list_def tor eta)
  have b: "get_status_list
             (demo_lt\<lparr>lt_status := \<lambda>e h. if h = 0 then Inl RuntimeError else Inl OtherException\<rparr>)
             demo_state = (Inl OtherException, demo_state)"
    by (simp add: get_status_list_def tor)
  have c: "(''a.torrent'', 0) \<in> set (torrents demo_state)"
    "''a.torrent'' \<in> keys (torrents demo_state)"
    by (simp_all add: tor keys_def)
  have d: "invalidated
        (demo_lt\<lparr>lt_status := \<lambda>e h. if h = 0 then Inl RuntimeError else Inl OtherException\<rparr>)
        (session demo_state) 0"
    by (simp add: invalidated_def)
  from a b c d show ?thesis by (intro conjI)
qed

section \<open>The two maps\<close>

text \<open>
  Claim C10. At every point every key of the live handle map is a key of the descriptor
  map, and each operation preserves this: the two add operations insert into both maps
  under the id they return, \<^verbatim>\<open>remove\<close> pops the id from both, and the status query and
  \<^verbatim>\<open>close\<close> shrink only the live handle map and leave the descriptor map as it is.
\<close>

theorem handles_have_descriptors:
  "(reachable lt st \<longrightarrow> maps_inv st)
   \<and> (maps_inv st \<longrightarrow>
        maps_inv (snd (add_torrent_file lt st p fp))
      \<and> maps_inv (snd (add_magnet lt st uri))
      \<and> maps_inv (remove lt st tid df)
      \<and> maps_inv (snd (get_status_list lt st))
      \<and> maps_inv (close lt st))
   \<and> (\<forall>tid' st'. add_torrent_file lt st p fp = (Inr tid', st') \<longrightarrow>
        tid' \<in> keys (torrents st') \<and> tid' \<in> keys (meta st'))
   \<and> (\<forall>tid' st'. add_magnet lt st uri = (Inr tid', st') \<longrightarrow>
        tid' \<in> keys (torrents st') \<and> tid' \<in> keys (meta st'))
   \<and> tid \<notin> keys (torrents (remove lt st tid df))
   \<and> tid \<notin> keys (meta (remove lt st tid df))
   \<and> meta (snd (get_status_list lt st)) = meta st
   \<and> keys (torrents (snd (get_status_list lt st))) \<subseteq> keys (torrents st)
   \<and> meta (close lt st) = meta st
   \<and> torrents (close lt st) = []"
proof -
  have a: "tid' \<in> keys (torrents st') \<and> tid' \<in> keys (meta st')"
    if "add_torrent_file lt st p fp = (Inr tid', st')" for tid' st'
    using add_torrent_file_maps [OF that] by auto
  have b: "tid' \<in> keys (torrents st') \<and> tid' \<in> keys (meta st')"
    if "add_magnet lt st uri = (Inr tid', st')" for tid' st'
    using add_magnet_maps [OF that] by auto
  have c: "tid \<notin> keys (torrents (remove lt st tid df))" "tid \<notin> keys (meta (remove lt st tid df))"
    by (simp_all add: remove_maps)
  show ?thesis
    using a b c
    by (simp add: reachable_inv add_torrent_file_inv add_magnet_inv remove_inv
          get_status_list_inv close_inv get_status_list_maps close_maps)
qed

theorem handles_have_descriptors_witness:
  "reachable demo_lt demo_state
   \<and> maps_inv demo_state
   \<and> maps_inv (remove demo_lt demo_state ''a.torrent'' True)
   \<and> maps_inv (close demo_lt demo_state)
   \<and> meta (close demo_lt demo_state) = meta demo_state"
  using handles_have_descriptors [of demo_lt demo_state "JStr ''a.torrent''" None
      "JStr ''magnet:?xt=urn:btih:abc''" "''a.torrent''" True] demo_state_reachable
  by simp

section \<open>Removal and persistence\<close>

text \<open>
  Claim C1 says that \<^verbatim>\<open>remove\<close> drops the id from both maps and persists the updated
  state, so that the persisted descriptor set excludes the id. The method drops the id
  from both maps and never calls \<^verbatim>\<open>_save_state\<close>: for a manager that tracks
  \<^verbatim>\<open>a.torrent\<close> with its state file in step, the file after \<^verbatim>\<open>remove\<close> still lists
  the descriptor, and a manager constructed from that file tracks it again.
\<close>

theorem remove_does_not_persist:
  "''a.torrent'' \<notin> keys (torrents (remove demo_lt demo_state ''a.torrent'' False))
   \<and> ''a.torrent'' \<notin> keys (meta (remove demo_lt demo_state ''a.torrent'' False))
   \<and> content (state_file (remove demo_lt demo_state ''a.torrent'' False))
       = Some (Json (state_json [demo_file, demo_magnet]))
   \<and> meta (snd (init_engine demo_lt ''/dl'' []
         (state_file (remove demo_lt demo_state ''a.torrent'' False))
         (legacy_state_file (remove demo_lt demo_state ''a.torrent'' False))))
       = [demo_file, demo_magnet]"
  by (simp add: remove_maps keys_def demo_eval)

section \<open>Loading\<close>

text \<open>
  Claim C6 says that loading never raises, whatever JSON the state files hold. The calls
  \<^verbatim>\<open>data.get\<close>, \<^verbatim>\<open>for item in torrents\<close> and \<^verbatim>\<open>item.get\<close> are outside every
  \<^verbatim>\<open>try\<close>: a current-location file holding \<^verbatim>\<open>[1]\<close>, \<^verbatim>\<open>{"torrents": 5}\<close> or
  \<^verbatim>\<open>{"torrents": [1]}\<close> makes the constructor raise, whatever the engine and the
  legacy file.
\<close>

theorem load_state_raises:
  "fst (init_engine lt path e (holding (JArr [JNum 1])) lf) = Inl AttributeError
   \<and> fst (init_engine lt path e (holding (JObj [(''torrents'', JNum 5)])) lf) = Inl TypeError
   \<and> fst (init_engine lt path e (holding (JObj [(''torrents'', JArr [JNum 1])])) lf)
       = Inl AttributeError"
  by (simp add: init_engine_def load_state_def read_state_def fresh_def exists_file_def
        read_json_def holding_def Let_def)

section \<open>Pause and resume on an unknown id\<close>




section \<open>Saving, loading and migration\<close>

text \<open>
  Claim C2, as amended. Loading re-adds every persisted descriptor through the engine and
  keys it by the id the engine derives. For every descriptor map with distinct ids whose
  entries the engine takes back under their recorded ids, and a current-location file
  that can be written and read, saving and then constructing a manager from the file
  yields a descriptor map equal to the original by id, kind and source, with a live
  handle for each id.
\<close>

theorem save_load_roundtrip:
  assumes "distinct (map fst (meta st))"
    and "\<forall>p \<in> set (meta st). readds lt path p"
    and "writable (state_file st)"
    and "readable (state_file st)"
  shows "\<exists>st'. init_engine lt path e (state_file (save_state st)) lf = (Inr (), st')
           \<and> meta st' = meta st
           \<and> keys (torrents st') = keys (meta st)
           \<and> content (state_file st') = Some (Json (state_json (meta st)))"
proof -
  let ?sf = "state_file (save_state st)"
  let ?st0 = "fresh path e ?sf lf"
  have sf: "?sf = saved (state_file st) (meta st)"
    using assms(3) by (rule save_state_writable)
  have rs: "read_state ?st0 = (state_json (meta st), ?st0)"
    using assms(4) sf
    by (simp add: read_state_def fresh_def exists_file_def read_json_def state_json_def)
  have p2: "\<forall>p \<in> set (meta st). readds lt (download_path ?st0) p"
    using assms(2) by (simp add: fresh_def)
  have p3: "writable (state_file ?st0)" using assms(3) sf by (simp add: fresh_def)
  have p5: "meta ?st0 = []" by (simp add: fresh_def)
  from load_state_readds [OF rs p2 p3 assms(1) p5]
  obtain st' where "load_state lt ?st0 = (Inr (), st')" "meta st' = meta st"
    "keys (torrents st') = keys (torrents ?st0) \<union> keys (meta st)"
    "state_file st' = (if meta st = [] then state_file ?st0 else saved (state_file ?st0) (meta st))"
    by blast
  then show ?thesis
    using sf by (auto simp: init_engine_def fresh_def)
qed

theorem save_load_roundtrip_witness:
  "distinct (map fst (meta demo_state))
   \<and> readds demo_lt ''/dl'' demo_file
   \<and> readds demo_lt ''/dl'' demo_magnet
   \<and> writable (state_file demo_state)
   \<and> readable (state_file demo_state)
   \<and> (\<exists>st'. init_engine demo_lt ''/dl'' [] (state_file (save_state demo_state)) absent
                = (Inr (), st')
          \<and> meta st' = [demo_file, demo_magnet])"
proof -
  have h1: "distinct (map fst (meta demo_state))"
    by (simp add: demo_state_def demo_file_def demo_magnet_def)
  have h2: "\<forall>p \<in> set (meta demo_state). readds demo_lt ''/dl'' p"
    using demo_readds by (simp add: demo_state_def)
  have h3: "writable (state_file demo_state)" and h4: "readable (state_file demo_state)"
    by (simp_all add: demo_state_def holding_def)
  have m: "meta demo_state = [demo_file, demo_magnet]" by (simp add: demo_state_def)
  from save_load_roundtrip [OF h1 h2 h3 h4, of "[]" absent] obtain st' where
    "init_engine demo_lt ''/dl'' [] (state_file (save_state demo_state)) absent = (Inr (), st')"
    "meta st' = meta demo_state"
    by (elim exE conjE)
  with m have "\<exists>st'. init_engine demo_lt ''/dl'' [] (state_file (save_state demo_state)) absent
                  = (Inr (), st') \<and> meta st' = [demo_file, demo_magnet]"
    by (intro exI [of _ st']) simp
  with h1 h3 h4 demo_readds show ?thesis by (intro conjI)
qed

text \<open>The claim as first stated held for every non-empty descriptor list. With the
  descriptors of \<^verbatim>\<open>gone.torrent\<close>, which the engine can no longer parse, and of a magnet,
  saving and loading yields the magnet alone.\<close>

theorem save_load_roundtrip_counterexample:
  "meta (snd (init_engine demo_lt ''/dl'' []
               (state_file (save_state (demo_state\<lparr>meta := [demo_gone, demo_magnet]\<rparr>))) absent))
     = [demo_magnet]
   \<and> set [demo_magnet] \<noteq> set [demo_gone, demo_magnet]"
  by (simp add: demo_eval)

text \<open>
  Claim C7, as amended. Let the current-location file be absent and the legacy file be
  readable and hold descriptors with distinct ids that the engine takes back under their
  recorded ids. If the current location can be written, then after the constructor the
  descriptor map and the current-location file hold these descriptors, and the legacy
  file is gone when it could be removed and untouched otherwise. If the current location
  cannot be written, the legacy file is not removed and nothing is loaded: the rewrite
  comes before the delete.
\<close>

theorem legacy_migration:
  assumes "content sf = None"
    and "readable lf"
    and "content lf = Some (Json (state_json m))"
    and "distinct (map fst m)"
    and "\<forall>p \<in> set m. readds lt path p"
  shows "(writable sf \<longrightarrow>
           (\<exists>st'. init_engine lt path e sf lf = (Inr (), st')
              \<and> meta st' = m
              \<and> state_file st' = saved sf m
              \<and> legacy_state_file st' = (if removable lf then lf\<lparr>content := None\<rparr> else lf)))
       \<and> (\<not> writable sf \<longrightarrow> init_engine lt path e sf lf = (Inr (), fresh path e sf lf))"
proof (intro conjI impI)
  assume w: "writable sf"
  let ?st0 = "fresh path e sf lf"
  let ?lf' = "if removable lf then lf\<lparr>content := None\<rparr> else lf"
  let ?st1 = "?st0\<lparr>state_file := saved sf m, legacy_state_file := ?lf'\<rparr>"
  have rs: "read_state ?st0 = (state_json m, ?st1)"
    using assms(1,2,3) w
    by (simp add: read_state_def fresh_def exists_file_def read_json_def write_json_def
          os_remove_def saved_def)
  have p2: "\<forall>p \<in> set m. readds lt (download_path ?st0) p"
    using assms(5) by (simp add: fresh_def)
  have p3: "writable (state_file ?st1)" using w by simp
  have p5: "meta ?st0 = []" by (simp add: fresh_def)
  from load_state_readds [OF rs p2 p3 assms(4) p5]
  obtain st' where "load_state lt ?st0 = (Inr (), st')" "meta st' = m"
    "legacy_state_file st' = legacy_state_file ?st1"
    "state_file st' = (if m = [] then state_file ?st1 else saved (state_file ?st1) m)"
    by blast
  then show "\<exists>st'. init_engine lt path e sf lf = (Inr (), st')
              \<and> meta st' = m
              \<and> state_file st' = saved sf m
              \<and> legacy_state_file st' = ?lf'"
    by (auto simp: init_engine_def)
next
  assume "\<not> writable sf"
  with assms(1,2,3) show "init_engine lt path e sf lf = (Inr (), fresh path e sf lf)"
    by (simp add: init_engine_def load_state_def read_state_def fresh_def exists_file_def
          read_json_def write_json_def)
qed

theorem legacy_migration_witness:
  "content absent = None
   \<and> readable (holding (state_json [demo_file, demo_magnet]))
   \<and> content (holding (state_json [demo_file, demo_magnet]))
       = Some (Json (state_json [demo_file, demo_magnet]))
   \<and> distinct (map fst [demo_file, demo_magnet])
   \<and> readds demo_lt ''/dl'' demo_file
   \<and> readds demo_lt ''/dl'' demo_magnet
   \<and> writable absent
   \<and> removable (holding (state_json [demo_file, demo_magnet]))
   \<and> (\<exists>st'. init_engine demo_lt ''/dl'' [] absent (holding (state_json [demo_file, demo_magnet]))
                = (Inr (), st')
          \<and> meta st' = [demo_file, demo_magnet]
          \<and> content (state_file st') = Some (Json (state_json [demo_file, demo_magnet]))
          \<and> content (legacy_state_file st') = None)"
proof -
  let ?m = "[demo_file, demo_magnet]"
  let ?lf = "holding (state_json ?m)"
  have h1: "content absent = None" by (simp add: absent_def)
  have h2: "readable ?lf" by (simp add: holding_def)
  have h3: "content ?lf = Some (Json (state_json ?m))" by (simp add: holding_def)
  have h4: "distinct (map fst ?m)" by (simp add: demo_file_def demo_magnet_def)
  have h5: "\<forall>p \<in> set ?m. readds demo_lt ''/dl'' p" using demo_readds by simp
  have w: "writable absent" by (simp add: absent_def)
  have r: "removable ?lf" by (simp add: holding_def)
  from legacy_migration [OF h1 h2 h3 h4 h5, of "[]"]
  have "writable absent \<longrightarrow>
          (\<exists>st'. init_engine demo_lt ''/dl'' [] absent ?lf = (Inr (), st')
             \<and> meta st' = ?m
             \<and> state_file st' = saved absent ?m
             \<and> legacy_state_file st' = (if removable ?lf then ?lf\<lparr>content := None\<rparr> else ?lf))"
    by (elim conjE)
  from mp [OF this w] obtain st' where
    a: "init_engine demo_lt ''/dl'' [] absent ?lf = (Inr (), st')"
    and b: "meta st' = ?m"
    and c: "state_file st' = saved absent ?m"
    and d: "legacy_state_file st' = (if removable ?lf then ?lf\<lparr>content := None\<rparr> else ?lf)"
    by (elim exE conjE)
  from c have c': "content (state_file st') = Some (Json (state_json ?m))" by simp
  from d r have d': "content (legacy_state_file st') = None" by simp
  from a b c' d' have "\<exists>st'. init_engine demo_lt ''/dl'' [] absent ?lf = (Inr (), st')
          \<and> meta st' = ?m
          \<and> content (state_file st') = Some (Json (state_json ?m))
          \<and> content (legacy_state_file st') = None"
    by (intro exI [of _ st'] conjI)
  with h1 h2 h3 h4 demo_readds w r show ?thesis by (intro conjI)
qed

text \<open>The claim as first stated promised the same descriptors in the current-location
  file for any valid descriptors in the legacy file. With the descriptors of
  \<^verbatim>\<open>gone.torrent\<close> and of a magnet in the legacy file, the constructor leaves the magnet
  alone in the current-location file, and the legacy file is deleted.\<close>

theorem legacy_migration_counterexample:
  "content (state_file (snd (init_engine demo_lt ''/dl'' [] absent
                               (holding (state_json [demo_gone, demo_magnet])))))
     = Some (Json (state_json [demo_magnet]))
   \<and> state_json [demo_magnet] \<noteq> state_json [demo_gone, demo_magnet]
   \<and> content (legacy_state_file (snd (init_engine demo_lt ''/dl'' [] absent
                               (holding (state_json [demo_gone, demo_magnet])))))
     = None"
  by (simp add: demo_eval)

end
